theory Spec2Isabelle
  imports Complex_Main
begin

section \<open>Data model of \<^verbatim>\<open>video_sampler/sampler.py\<close>\<close>

subsection \<open>Python floats\<close>

text \<open>
  Timestamps and segment bounds are Python floats, that is IEEE 754 binary64 numbers. A
  finite float is modelled by the real number it denotes. The engine subtracts two
  timestamps and divides a bound by 1000; both operations round the exact result to the
  nearest float, ties to the even significand.

  \<open>round_even\<close> rounds to the nearest integer, ties to even. \<open>binade x\<close> is the exponent
  \<open>e\<close> with \<open>2^e \<le> |x| < 2^(e+1)\<close>, not below the exponent -1022 of the subnormal range, so
  that floats near \<open>x\<close> are the multiples of \<open>2^(e - 52)\<close>. \<open>fl x\<close> is the nearest of them.
\<close>

definition round_even :: "real \<Rightarrow> int" where
  "round_even y =
     (let f = \<lfloor>y\<rfloor>; r = y - of_int f
      in if r < 1/2 then f else if 1/2 < r then f + 1 else if even f then f else f + 1)"

definition binade :: "real \<Rightarrow> int" where
  "binade x = max \<lfloor>log 2 \<bar>x\<bar>\<rfloor> (- 1022)"

definition fl :: "real \<Rightarrow> real" where
  "fl x = (if x = 0 then 0
           else of_int (round_even (x / 2 powi (binade x - 52))) * 2 powi (binade x - 52))"

text \<open>
  The result of a float operation on finite floats: a finite float, or an infinity when
  the rounded result is out of range.
\<close>

datatype pyfloat = Finite real | PosInf | NegInf

definition to_float :: "real \<Rightarrow> pyfloat" where
  "to_float r = (if 2 ^ 1024 \<le> r then PosInf else if r \<le> - (2 ^ 1024) then NegInf else Finite r)"

text \<open>\<^verbatim>\<open>a - b\<close> on floats.\<close>

definition float_sub :: "real \<Rightarrow> real \<Rightarrow> pyfloat" where
  "float_sub a b = to_float (fl (a - b))"

text \<open>\<^verbatim>\<open>d < m\<close> and \<^verbatim>\<open>d >= m\<close> for a float result \<open>d\<close> and a finite float \<open>m\<close>.\<close>

fun float_less :: "pyfloat \<Rightarrow> real \<Rightarrow> bool" where
  "float_less (Finite d) m = (d < m)"
| "float_less PosInf m = False"
| "float_less NegInf m = True"


text \<open>
  \<^verbatim>\<open>x / 1000\<close> for a segment bound \<open>x\<close>: the quotient of a finite float by 1000 is in
  range, so the result is a finite float.
\<close>

definition float_div :: "real \<Rightarrow> real \<Rightarrow> real" where
  "float_div a b = fl (a / b)"

subsection \<open>Frames, batches and collaborators\<close>

datatype pyval = PyFloat real | PyInt int | PyBool bool

text \<open>Python truthiness of a metadata value, as \<^verbatim>\<open>if v:\<close> evaluates it.\<close>

fun truthy :: "pyval \<Rightarrow> bool" where
  "truthy (PyBool b) = b"
| "truthy (PyInt n) = (n \<noteq> 0)"
| "truthy (PyFloat x) = (x \<noteq> 0)"

text \<open>A metadata dict: string keys, looked up with \<open>map_of\<close>.\<close>

type_synonym metadata = "(string \<times> pyval) list"

text \<open>
  The payload of a FrameObject: \<^verbatim>\<open>None\<close>, a PIL image, or some other object (the
  consumer checks \<^verbatim>\<open>isinstance(frame, Image.Image)\<close>).
\<close>

datatype 'i payload = PilImage 'i | OtherObject

record 'i FrameObject =
  frame :: "'i payload option"
  metadata :: metadata

record 'i GatedObject =
  frames :: "'i FrameObject list"
  N :: int

text \<open>
  Modelled from the spec: \<^verbatim>\<open>PROCESSING_DONE_ITERABLE\<close> is imported from
  \<^verbatim>\<open>schemas.py\<close>, which is not among the sources. The spec describes it as the
  terminal sentinel batch whose sole element has a null frame and \<^verbatim>\<open>metadata.end = true\<close>.
\<close>

definition PROCESSING_DONE_ITERABLE :: "'i FrameObject list" where
  "PROCESSING_DONE_ITERABLE = [\<lparr>frame = None, metadata = [(''end'', PyBool True)]\<rparr>]"

text \<open>\<^verbatim>\<open>frame_object.metadata.get("end", False)\<close> used as a condition.\<close>

definition metadata_end :: "metadata \<Rightarrow> bool" where
  "metadata_end md = (case map_of md ''end'' of None \<Rightarrow> False | Some v \<Rightarrow> truthy v)"

text \<open>A batch is the terminal sentinel when its sole element is marked \<^verbatim>\<open>end\<close>.\<close>

definition is_sentinel :: "'i FrameObject list \<Rightarrow> bool" where
  "is_sentinel batch = (case batch of [fo] \<Rightarrow> metadata_end (metadata fo) | _ \<Rightarrow> False)"

text \<open>
  Exceptions that reach the modelled code. \<open>RuntimeError\<close> is what Python (PEP 479)
  makes of a \<^verbatim>\<open>StopIteration\<close> that escapes the body of a generator.
\<close>

datatype error =
  AvIsADirectoryError | AvInvalidDataError | AvFileNotFoundError | IndexError | RuntimeError
  | KeyError

record SamplerConfig =
  min_frame_interval_sec :: real
  keyframes_only :: bool
  debug :: bool

text \<open>
  What \<^verbatim>\<open>container.decode(stream)\<close> hands to the loop: \<^verbatim>\<open>None\<close>, or a frame whose
  \<^verbatim>\<open>time\<close> attribute is readable (\<open>Some t\<close>) or raises AttributeError (\<open>None\<close>).
\<close>

datatype 'i av_frame = NoFrame | VideoFrame (time: "real option") (to_image: 'i)

text \<open>
  A video as the decoder presents it: the frames it yields, in order, and the exception
  it raises after them, if any. A video that cannot be opened yields no frame and fails.
\<close>

record 'i video =
  decode :: "'i av_frame list"
  failure :: "error option"

text \<open>
  The frame buffer and the gate come from \<^verbatim>\<open>buffer.py\<close> and \<^verbatim>\<open>gating.py\<close>, which
  are not among the sources: they are parameters. Each operation takes the collaborator's
  state and returns the new state with its result. A buffer result \<open>None\<close> is a falsy
  result (no completed group); \<open>Some r\<close> is a group \<open>r\<close> that is passed to the gate.
\<close>

record ('i, 'r, 'b, 'g) collaborators =
  buffer_add :: "'b \<Rightarrow> 'i \<Rightarrow> metadata \<Rightarrow> 'b \<times> 'r option"
  buffer_final_flush :: "'b \<Rightarrow> 'b \<times> 'r option list"
  buffer_clear :: "'b \<Rightarrow> 'b"
  gate_call :: "'g \<Rightarrow> 'r \<Rightarrow> 'g \<times> 'i GatedObject"
  gate_flush :: "'g \<Rightarrow> 'g \<times> 'i GatedObject"

text \<open>The attributes of a \<^verbatim>\<open>VideoSampler\<close> instance; \<open>stats\<close> is a \<^verbatim>\<open>Counter\<close>.\<close>

record ('b, 'g) VideoSampler =
  cfg :: SamplerConfig
  frame_buffer :: 'b
  gate :: 'g
  stats :: "string \<rightharpoonup> int"

text \<open>Reading a \<^verbatim>\<open>Counter\<close>: a missing key counts as 0.\<close>

definition counter_get :: "(string \<rightharpoonup> int) \<Rightarrow> string \<Rightarrow> int" where
  "counter_get m k = (case m k of None \<Rightarrow> 0 | Some v \<Rightarrow> v)"

text \<open>\<^verbatim>\<open>self.stats[k] += n\<close>\<close>

definition stats_add :: "string \<Rightarrow> int \<Rightarrow> ('b, 'g) VideoSampler \<Rightarrow> ('b, 'g) VideoSampler" where
  "stats_add k n s = s\<lparr>stats := (stats s)(k \<mapsto> counter_get (stats s) k + n)\<rparr>"

section \<open>The base engine\<close>

text \<open>
  The state of one call of \<^verbatim>\<open>sample\<close>: the instance, the local \<open>prev_time\<close>, the batches
  yielded so far and the exception that ended the run, if any. One further field only
  observes the run and is never read by the engine: \<open>submitted\<close> lists the
  \<open>(frame_time, frame_indx)\<close> of every frame that passed the interval filter.
\<close>

record ('i, 'b, 'g) run =
  self :: "('b, 'g) VideoSampler"
  prev_time :: real
  yielded :: "'i FrameObject list list"
  raised :: "error option"
  submitted :: "(real \<times> nat) list"

text \<open>Lines 99-109: the frame passed the interval filter.\<close>

definition buffer_frame ::
  "('i, 'r, 'b, 'g) collaborators \<Rightarrow> real \<Rightarrow> nat \<Rightarrow> 'i \<Rightarrow> ('i, 'b, 'g) run \<Rightarrow> ('i, 'b, 'g) run" where
  "buffer_frame C ftime frame_indx frame_pil R =
     (let frame_meta = [(''frame_time'', PyFloat ftime), (''frame_indx'', PyInt (int frame_indx))];
          s = stats_add ''decoded'' 1 (self R);
          (b, res) = buffer_add C (frame_buffer s) frame_pil frame_meta;
          s = s\<lparr>frame_buffer := b\<rparr>;
          R = R\<lparr>self := s, submitted := submitted R @ [(ftime, frame_indx)]\<rparr>
      in case res of
           None \<Rightarrow> R
         | Some r \<Rightarrow>
             (let (g, gated_obj) = gate_call C (gate s) r;
                  s = s\<lparr>gate := g\<rparr>;
                  s = stats_add ''produced'' 1 s;
                  s = stats_add ''gated'' (N gated_obj) s;
                  R = R\<lparr>self := s\<rparr>
              in if frames gated_obj \<noteq> [] then R\<lparr>yielded := yielded R @ [frames gated_obj]\<rparr>
                 else R))"

text \<open>Lines 78-109: the body of the decode loop of \<^verbatim>\<open>VideoSampler.sample\<close>.\<close>

fun sample_frame ::
  "('i, 'r, 'b, 'g) collaborators \<Rightarrow> ('i, 'b, 'g) run \<Rightarrow> nat \<times> 'i av_frame \<Rightarrow> ('i, 'b, 'g) run" where
  "sample_frame C R (frame_indx, NoFrame) = R"
| "sample_frame C R (frame_indx, VideoFrame None img) = R"
| "sample_frame C R (frame_indx, VideoFrame (Some ftime) img) =
     (let time_diff = float_sub ftime (prev_time R);
          R = R\<lparr>self := stats_add ''total'' 1 (self R)\<rparr>
      in if float_less time_diff (min_frame_interval_sec (cfg (self R))) then R
         else buffer_frame C ftime frame_indx img (R\<lparr>prev_time := ftime\<rparr>))"

text \<open>Lines 48-54: one result of \<^verbatim>\<open>frame_buffer.final_flush()\<close> after the other.\<close>

fun flush_results ::
  "('i, 'r, 'b, 'g) collaborators \<Rightarrow> 'r option list \<Rightarrow> ('i, 'b, 'g) run \<Rightarrow> ('i, 'b, 'g) run" where
  "flush_results C [] R = R"
| "flush_results C (None # rest) R = flush_results C rest R"
| "flush_results C (Some r # rest) R =
     (let s = stats_add ''produced'' 1 (self R);
          (g, gated_obj) = gate_call C (gate s) r;
          s = s\<lparr>gate := g\<rparr>;
          s = stats_add ''gated'' (N gated_obj) s;
          R = R\<lparr>self := s\<rparr>
      in flush_results C rest
           (if frames gated_obj \<noteq> [] then R\<lparr>yielded := yielded R @ [frames gated_obj]\<rparr> else R))"

text \<open>Lines 46-59: \<^verbatim>\<open>flush_buffer\<close>.\<close>

definition flush_buffer ::
  "('i, 'r, 'b, 'g) collaborators \<Rightarrow> ('i, 'b, 'g) run \<Rightarrow> ('i, 'b, 'g) run" where
  "flush_buffer C R =
     (let (b, results) = buffer_final_flush C (frame_buffer (self R));
          R = flush_results C results (R\<lparr>self := (self R)\<lparr>frame_buffer := b\<rparr>\<rparr>);
          (g, gated_obj) = gate_flush C (gate (self R));
          s = (self R)\<lparr>gate := g\<rparr>;
          s = stats_add ''gated'' (N gated_obj) s;
          R = R\<lparr>self := s\<rparr>;
          R = (if frames gated_obj \<noteq> [] then R\<lparr>yielded := yielded R @ [frames gated_obj]\<rparr> else R)
      in R\<lparr>yielded := yielded R @ [PROCESSING_DONE_ITERABLE]\<rparr>)"

text \<open>Lines 70-71 and 76: what a call of \<^verbatim>\<open>sample\<close> starts from.\<close>

definition start_run ::
  "('i, 'r, 'b, 'g) collaborators \<Rightarrow> ('b, 'g) VideoSampler \<Rightarrow> ('i, 'b, 'g) run" where
  "start_run C s =
     \<lparr>self = s\<lparr>stats := Map.empty, frame_buffer := buffer_clear C (frame_buffer s)\<rparr>,
      prev_time = - 10, yielded = [], raised = None, submitted = []\<rparr>"

text \<open>Lines 72-109: the state when the decode loop has consumed every frame.\<close>

definition decode_loop ::
  "('i, 'r, 'b, 'g) collaborators \<Rightarrow> ('b, 'g) VideoSampler \<Rightarrow> 'i video \<Rightarrow> ('i, 'b, 'g) run" where
  "decode_loop C s v = foldl (sample_frame C) (start_run C s) (enumerate 0 (decode v))"

text \<open>
  Lines 61-112: \<^verbatim>\<open>VideoSampler.sample\<close>, consumed to its end. When the decoder raises,
  the exception leaves the generator and the flush is not reached.
\<close>

definition sample ::
  "('i, 'r, 'b, 'g) collaborators \<Rightarrow> ('b, 'g) VideoSampler \<Rightarrow> 'i video \<Rightarrow> ('i, 'b, 'g) run" where
  "sample C s v =
     (let R = decode_loop C s v
      in case failure v of
           Some e \<Rightarrow> R\<lparr>raised := Some e\<rparr>
         | None \<Rightarrow> flush_buffer C R)"

text \<open>
  Lines 115-125: the body of \<^verbatim>\<open>write_queue\<close>, given the run of \<^verbatim>\<open>self.sample\<close>
  it iterates over. The result is the queue and the exception that leaves the producer
  thread, if any.
\<close>

definition put_batches ::
  "('i, 'b, 'g) run \<Rightarrow> 'i FrameObject list list \<Rightarrow> 'i FrameObject list list \<times> error option" where
  "put_batches R q =
     (let q = q @ yielded R
      in case raised R of
           None \<Rightarrow> (q, None)
         | Some e \<Rightarrow>
             if e = AvIsADirectoryError \<or> e = AvInvalidDataError
             then (q @ [PROCESSING_DONE_ITERABLE], None)
             else (q, Some e))"

definition write_queue ::
  "('i, 'r, 'b, 'g) collaborators \<Rightarrow> ('b, 'g) VideoSampler \<Rightarrow> 'i video
     \<Rightarrow> 'i FrameObject list list \<Rightarrow> 'i FrameObject list list \<times> error option" where
  "write_queue C s v q = put_batches (sample C s v) q"

section \<open>The segment-aware engine\<close>

text \<open>A \<^verbatim>\<open>subtitle_line\<close>: its bounds in milliseconds, finite numbers.\<close>

record segment =
  start_time :: real
  end_time :: real

text \<open>
  The state of one call of \<^verbatim>\<open>SegmentSampler.sample\<close>: the run of the base engine, the
  elements the segment generator has not produced yet, and the locals of the tracker.
  Two fields only observe: \<open>pulled\<close> counts the segments obtained from the generator, and
  \<open>accepted_in\<close> lists, for every frame handed to the buffer, its time and the position
  in the supplied sequence of the segment that was current.
\<close>

record ('i, 'b, 'g) segment_run =
  run :: "('i, 'b, 'g) run"
  segment_generator :: "segment list"
  segment_boundary_end_sec :: real
  segment_boundary_start_sec :: real
  absolute_stop :: bool
  pulled :: nat
  accepted_in :: "(real \<times> nat) list"

text \<open>
  Lines 164-176: the \<^verbatim>\<open>while\<close> loop that seeks the segment of the frame. The third
  argument is what the generator still holds; the loop stores it back.
\<close>

fun seek_segment ::
  "real \<Rightarrow> ('i, 'b, 'g) segment_run \<Rightarrow> segment list \<Rightarrow> ('i, 'b, 'g) segment_run" where
  "seek_segment ftime T [] =
     (if ftime > segment_boundary_end_sec T
      then T\<lparr>segment_generator := [], absolute_stop := True\<rparr>
      else T\<lparr>segment_generator := []\<rparr>)"
| "seek_segment ftime T (next_segment # gen) =
     (if ftime > segment_boundary_end_sec T
      then seek_segment ftime
             (T\<lparr>pulled := pulled T + 1,
                segment_boundary_end_sec := float_div (end_time next_segment) 1000,
                segment_boundary_start_sec := float_div (start_time next_segment) 1000\<rparr>) gen
      else T\<lparr>segment_generator := next_segment # gen\<rparr>)"

text \<open>Lines 156-214: the body of the decode loop of \<^verbatim>\<open>SegmentSampler.sample\<close>.\<close>

fun segment_frame ::
  "('i, 'r, 'b, 'g) collaborators \<Rightarrow> ('i, 'b, 'g) segment_run \<Rightarrow> nat \<times> 'i av_frame
     \<Rightarrow> ('i, 'b, 'g) segment_run" where
  "segment_frame C T (frame_indx, NoFrame) = T"
| "segment_frame C T (frame_indx, VideoFrame None img) = T"
| "segment_frame C T (frame_indx, VideoFrame (Some ftime) img) =
     (let T = seek_segment ftime T (segment_generator T)
      in if absolute_stop T then T
         else if ftime \<le> segment_boundary_start_sec T then T
         else
           (let R = (run T)\<lparr>self := stats_add ''total'' 1 (self (run T))\<rparr>;
                time_diff = float_sub ftime (prev_time R)
            in if float_less time_diff (min_frame_interval_sec (cfg (self R))) then T\<lparr>run := R\<rparr>
               else T\<lparr>run := buffer_frame C ftime frame_indx img (R\<lparr>prev_time := ftime\<rparr>),
                      accepted_in := accepted_in T @ [(ftime, pulled T - 1)]\<rparr>))"

text \<open>Lines 155-183: the \<^verbatim>\<open>for\<close> loop, left by \<^verbatim>\<open>break\<close> once \<open>absolute_stop\<close> is set.\<close>

fun segment_loop ::
  "('i, 'r, 'b, 'g) collaborators \<Rightarrow> ('i, 'b, 'g) segment_run \<Rightarrow> (nat \<times> 'i av_frame) list
     \<Rightarrow> ('i, 'b, 'g) segment_run" where
  "segment_loop C T [] = T"
| "segment_loop C T (x # xs) =
     (let T = segment_frame C T x
      in if absolute_stop T then T else segment_loop C T xs)"

text \<open>
  Lines 135-217: \<^verbatim>\<open>SegmentSampler.sample\<close>, consumed to its end, on an instance whose
  segment generator still holds \<open>segs\<close>. The first \<^verbatim>\<open>next\<close> (line 146) is not guarded:
  on an exhausted generator its \<^verbatim>\<open>StopIteration\<close> leaves the generator body, before the
  video is opened. After a \<^verbatim>\<open>break\<close> the decoder is not asked for another frame.
\<close>

definition SegmentSampler_sample ::
  "('i, 'r, 'b, 'g) collaborators \<Rightarrow> ('b, 'g) VideoSampler \<Rightarrow> segment list \<Rightarrow> 'i video
     \<Rightarrow> ('i, 'b, 'g) segment_run" where
  "SegmentSampler_sample C s segs v =
     (case segs of
        [] \<Rightarrow>
          \<lparr>run = (start_run C s)\<lparr>raised := Some RuntimeError\<rparr>, segment_generator = [],
           segment_boundary_end_sec = 0, segment_boundary_start_sec = 0,
           absolute_stop = False, pulled = 0, accepted_in = []\<rparr>
      | next_segment # gen \<Rightarrow>
          (let T = \<lparr>run = start_run C s, segment_generator = gen,
                    segment_boundary_end_sec = float_div (end_time next_segment) 1000,
                    segment_boundary_start_sec = float_div (start_time next_segment) 1000,
                    absolute_stop = False, pulled = 1, accepted_in = []\<rparr>;
               T = segment_loop C T (enumerate 0 (decode v))
           in if \<not> absolute_stop T \<and> failure v \<noteq> None
              then T\<lparr>run := (run T)\<lparr>raised := failure v\<rparr>\<rparr>
              else T\<lparr>run := flush_buffer C (run T)\<rparr>))"

text \<open>Lines 219-220: \<^verbatim>\<open>write_queue\<close> of the base class, on this class's \<^verbatim>\<open>sample\<close>.\<close>

definition SegmentSampler_write_queue ::
  "('i, 'r, 'b, 'g) collaborators \<Rightarrow> ('b, 'g) VideoSampler \<Rightarrow> segment list \<Rightarrow> 'i video
     \<Rightarrow> 'i FrameObject list list \<Rightarrow> 'i FrameObject list list \<times> error option" where
  "SegmentSampler_write_queue C s segs v q = put_batches (run (SegmentSampler_sample C s segs v)) q"

section \<open>The consumer\<close>

text \<open>
  A file written by \<^verbatim>\<open>frame_object.frame.save\<close>: the directory, the value whose
  formatting is the stem of the name \<^verbatim>\<open><frame_time>.jpg\<close>, and the image.
\<close>

record 'i jpg =
  directory :: string
  stem :: pyval
  image :: 'i

datatype 'i reading =
    Continue "'i jpg list"
  | Return "'i jpg list"
  | Raise error "'i jpg list"

text \<open>Lines 284-295: the \<^verbatim>\<open>for\<close> loop over one dequeued batch.\<close>

fun read_batch :: "bool \<Rightarrow> string \<Rightarrow> 'i FrameObject list \<Rightarrow> 'i jpg list \<Rightarrow> 'i reading" where
  "read_batch devnull output_path [] saved = Continue saved"
| "read_batch devnull output_path (frame_object # rest) saved =
     (if metadata_end (metadata frame_object) then Return saved
      else
        (case frame frame_object of
           Some (PilImage img) \<Rightarrow>
             if \<not> devnull then
               (case map_of (metadata frame_object) ''frame_time'' of
                  None \<Rightarrow> Raise KeyError saved
                | Some ft \<Rightarrow>
                    read_batch devnull output_path rest
                      (saved @ [\<lparr>directory = output_path, stem = ft, image = img\<rparr>]))
             else read_batch devnull output_path rest saved
         | _ \<Rightarrow> read_batch devnull output_path rest saved))"

text \<open>
  Lines 272-296: \<^verbatim>\<open>queue_reader\<close>. The list holds the batches that are ever put on the
  queue, in order; a poll that finds the queue empty only sleeps. Once the list is
  used up the queue stays empty and the \<^verbatim>\<open>while True\<close> loop never ends: that is the
  outcome \<open>PollsForever\<close>.
\<close>

datatype 'i consumed =
    Returned "'i jpg list"
  | Aborted error "'i jpg list"
  | PollsForever "'i jpg list"

fun queue_reader :: "bool \<Rightarrow> string \<Rightarrow> 'i FrameObject list list \<Rightarrow> 'i jpg list \<Rightarrow> 'i consumed" where
  "queue_reader devnull output_path [] saved = PollsForever saved"
| "queue_reader devnull output_path (batch # q) saved =
     (case read_batch devnull output_path batch saved of
        Continue saved' \<Rightarrow> queue_reader devnull output_path q saved'
      | Return saved' \<Rightarrow> Returned saved'
      | Raise e saved' \<Rightarrow> Aborted e saved')"

section \<open>Collaborators for the concrete runs\<close>

text \<open>
  A buffer that passes every frame on as a group of its own and has nothing left at the
  end, and a gate that accepts every group that carries an image. Images are numbers.
\<close>

definition pass_through :: "(nat, nat option \<times> metadata, unit, unit) collaborators" where
  "pass_through =
     \<lparr>buffer_add = (\<lambda>b img meta. (b, Some (Some img, meta))),
      buffer_final_flush = (\<lambda>b. (b, [None])),
      buffer_clear = (\<lambda>b. b),
      gate_call = (\<lambda>g (img, meta).
         (g, case img of
               None \<Rightarrow> \<lparr>frames = [], N = 0\<rparr>
             | Some i \<Rightarrow> \<lparr>frames = [\<lparr>frame = Some (PilImage i), metadata = meta\<rparr>], N = 0\<rparr>)),
      gate_flush = (\<lambda>g. (g, \<lparr>frames = [], N = 0\<rparr>))\<rparr>"

definition engine0 :: "real \<Rightarrow> (unit, unit) VideoSampler" where
  "engine0 m =
     \<lparr>cfg = \<lparr>min_frame_interval_sec = m, keyframes_only = False, debug = False\<rparr>,
      frame_buffer = (), gate = (), stats = Map.empty\<rparr>"

section \<open>Observing the collaborators\<close>

text \<open>
  Collaborators that keep a record of their own and otherwise behave as the ones they
  wrap: the buffer lists every image and metadata it was given by \<^verbatim>\<open>add\<close> since it was
  last cleared, and the gate lists every result it returned, from an invocation or from
  its flush. \<open>watch\<close> is an instance that holds such collaborators, their records empty.
\<close>

definition observed ::
  "('i, 'r, 'b, 'g) collaborators
     \<Rightarrow> ('i, 'r, 'b \<times> ('i \<times> metadata) list, 'g \<times> 'i GatedObject list) collaborators" where
  "observed C =
     \<lparr>buffer_add = (\<lambda>(b, given) img meta.
         case buffer_add C b img meta of (b', res) \<Rightarrow> ((b', given @ [(img, meta)]), res)),
      buffer_final_flush = (\<lambda>(b, given).
         case buffer_final_flush C b of (b', results) \<Rightarrow> ((b', given), results)),
      buffer_clear = (\<lambda>(b, given). (buffer_clear C b, [])),
      gate_call = (\<lambda>(g, returned) r.
         case gate_call C g r of (g', obj) \<Rightarrow> ((g', returned @ [obj]), obj)),
      gate_flush = (\<lambda>(g, returned).
         case gate_flush C g of (g', obj) \<Rightarrow> ((g', returned @ [obj]), obj))\<rparr>"

definition watch ::
  "('b, 'g) VideoSampler \<Rightarrow> ('b \<times> ('i \<times> metadata) list, 'g \<times> 'i GatedObject list) VideoSampler" where
  "watch s = \<lparr>cfg = cfg s, frame_buffer = (frame_buffer s, []), gate = (gate s, []), stats = stats s\<rparr>"

text \<open>The run of the wrapped collaborators that an observed run stands for.\<close>

definition unobserved ::
  "('i, 'b \<times> ('i \<times> metadata) list, 'g \<times> 'i GatedObject list) run \<Rightarrow> ('i, 'b, 'g) run" where
  "unobserved R =
     \<lparr>self = \<lparr>cfg = cfg (self R), frame_buffer = fst (frame_buffer (self R)),
              gate = fst (gate (self R)), stats = stats (self R)\<rparr>,
      prev_time = prev_time R, yielded = yielded R, raised = raised R, submitted = submitted R\<rparr>"

text \<open>The metadata that line 99 builds for a frame.\<close>

definition meta_of :: "real \<Rightarrow> nat \<Rightarrow> metadata" where
  "meta_of ftime frame_indx =
     [(''frame_time'', PyFloat ftime), (''frame_indx'', PyInt (int frame_indx))]"

text \<open>
  As \<open>pass_through\<close>, with a gate that discards every image of odd number, reporting one
  discarded frame, and reports two more discarded frames at its flush.
\<close>

definition odd_rejecting :: "(nat, nat option \<times> metadata, unit, unit) collaborators" where
  "odd_rejecting =
     pass_through
       \<lparr>gate_call := (\<lambda>g (img, meta).
          (g, case img of
                None \<Rightarrow> \<lparr>frames = [], N = 0\<rparr>
              | Some i \<Rightarrow>
                  if odd i then \<lparr>frames = [], N = 1\<rparr>
                  else \<lparr>frames = [\<lparr>frame = Some (PilImage i), metadata = meta\<rparr>], N = 0\<rparr>)),
        gate_flush := (\<lambda>g. (g, \<lparr>frames = [], N = 2\<rparr>))\<rparr>"

section \<open>Predicates used in the statements\<close>

text \<open>
  The \<open>gated\<close> counter and the yielded batches agree with what the observed gate
  returned so far, and \<open>produced\<close> counts its invocations.
\<close>

definition gate_accounted :: "('i, 'b, 'g \<times> 'i GatedObject list) run \<Rightarrow> bool" where
  "gate_accounted R \<longleftrightarrow>
     counter_get (stats (self R)) ''gated'' = sum_list (map N (snd (gate (self R)))) \<and>
     yielded R = filter (\<lambda>b. b \<noteq> []) (map frames (snd (gate (self R)))) \<and>
     counter_get (stats (self R)) ''produced'' = int (length (snd (gate (self R))))"



text \<open>The counters are ordered: \<open>produced \<le> decoded \<le> total\<close>.\<close>

definition counts_ordered :: "('i, 'b, 'g) run \<Rightarrow> bool" where
  "counts_ordered R \<longleftrightarrow>
     counter_get (stats (self R)) ''produced'' \<le> counter_get (stats (self R)) ''decoded'' \<and>
     counter_get (stats (self R)) ''decoded'' \<le> counter_get (stats (self R)) ''total''"

text \<open>
  As \<open>pass_through\<close>, but the buffer closes its final flush with a group that holds no
  image.
\<close>

definition marker_flush :: "(nat, nat option \<times> metadata, unit, unit) collaborators" where
  "marker_flush = pass_through\<lparr>buffer_final_flush := (\<lambda>b. (b, [Some (None, [])]))\<rparr>"

text \<open>
  A gate that remembers the last image it let through and discards a group that
  repeats it; its flush releases nothing and forgets nothing.
\<close>

definition remembering_gate :: "(nat, nat option \<times> metadata, unit, nat option) collaborators" where
  "remembering_gate =
     \<lparr>buffer_add = (\<lambda>b img meta. (b, Some (Some img, meta))),
      buffer_final_flush = (\<lambda>b. (b, [None])),
      buffer_clear = (\<lambda>b. b),
      gate_call = (\<lambda>g (img, meta).
         if img = None \<or> img = g then (g, \<lparr>frames = [], N = 1\<rparr>)
         else (img, \<lparr>frames = [\<lparr>frame = map_option PilImage img, metadata = meta\<rparr>], N = 0\<rparr>)),
      gate_flush = (\<lambda>g. (g, \<lparr>frames = [], N = 0\<rparr>))\<rparr>"

definition engine1 :: "real \<Rightarrow> (unit, nat option) VideoSampler" where
  "engine1 m =
     \<lparr>cfg = \<lparr>min_frame_interval_sec = m, keyframes_only = False, debug = False\<rparr>,
      frame_buffer = (), gate = None, stats = Map.empty\<rparr>"

text \<open>
  What the interval filter reads and writes: the configuration, \<open>prev_time\<close>, the frames
  handed to the buffer and the counters \<open>total\<close> and \<open>decoded\<close>.
\<close>

definition filter_view :: "('i, 'b, 'g) run \<Rightarrow> SamplerConfig \<times> real \<times> (real \<times> nat) list \<times> int \<times> int" where
  "filter_view R =
     (cfg (self R), prev_time R, submitted R,
      counter_get (stats (self R)) ''total'', counter_get (stats (self R)) ''decoded'')"




text \<open>A FrameObject is terminal when its metadata marks the end.\<close>

definition terminal :: "'i FrameObject \<Rightarrow> bool" where
  "terminal fo = metadata_end (metadata fo)"

text \<open>
  The file that the claim on the consumer expects for a FrameObject: none in discard mode
  or without a real image, else \<^verbatim>\<open><frame_time>.jpg\<close> under the output path.
\<close>

definition jpg_of :: "bool \<Rightarrow> string \<Rightarrow> 'i FrameObject \<Rightarrow> 'i jpg option" where
  "jpg_of devnull output_path fo =
     (if devnull then None
      else case frame fo of
             Some (PilImage img) \<Rightarrow>
               map_option (\<lambda>ft. \<lparr>directory = output_path, stem = ft, image = img\<rparr>)
                 (map_of (metadata fo) ''frame_time'')
           | _ \<Rightarrow> None)"

definition saved_files :: "bool \<Rightarrow> string \<Rightarrow> 'i FrameObject list \<Rightarrow> 'i jpg list" where
  "saved_files devnull output_path fos = List.map_filter (jpg_of devnull output_path) fos"

text \<open>
  Every FrameObject of the list that is to be saved has a \<^verbatim>\<open>frame_time\<close> in its metadata
  (the engine puts one in the metadata of every frame it hands to the buffer).
\<close>

definition named :: "bool \<Rightarrow> 'i FrameObject list \<Rightarrow> bool" where
  "named devnull fos \<longleftrightarrow>
     (\<forall>fo\<in>set fos. \<not> devnull \<longrightarrow> (\<exists>img. frame fo = Some (PilImage img)) \<longrightarrow>
        map_of (metadata fo) ''frame_time'' \<noteq> None)"

section \<open>Evaluating float operations\<close>

lemma binade_eq:
  assumes "2 powi e \<le> \<bar>x\<bar>" "\<bar>x\<bar> < 2 powi (e + 1)" "- 1022 \<le> e"
  shows "binade x = e"
proof -
  have pos: "0 < \<bar>x\<bar>"
    using assms(1) by (smt (verit) zero_less_power_int)
  have "(2::real) powr real_of_int k = 2 powi k" for k :: int
    by (rule powr_real_of_int') simp_all
  then have "(2::real) powr real_of_int e = 2 powi e"
    "(2::real) powr real_of_int (e + 1) = 2 powi (e + 1)"
    by blast+
  then have "\<lfloor>log 2 \<bar>x\<bar>\<rfloor> = e"
    using assms(1,2) pos by (simp add: floor_log_eq_powr_iff)
  then show ?thesis using assms(3) by (simp add: binade_def)
qed

lemma fl_binade:
  assumes "2 powi e \<le> \<bar>x\<bar>" "\<bar>x\<bar> < 2 powi (e + 1)" "- 1022 \<le> e"
  shows "fl x = of_int (round_even (x / 2 powi (e - 52))) * 2 powi (e - 52)"
proof -
  have "x \<noteq> 0" using assms(1) by (smt (verit) zero_less_power_int)
  then show ?thesis by (simp add: fl_def binade_eq [OF assms])
qed

lemma fl_zero: "fl 0 = 0"
  by (simp add: fl_def)


text \<open>The floats that the concrete runs below meet.\<close>

lemma fl_small:
  "fl 1 = 1" "fl 2 = 2" "fl 3 = 3" "fl 5 = 5" "fl 7 = 7" "fl 10 = 10" "fl 11 = 11"
  "fl (1/2) = 1/2" "fl (5/2) = 5/2" "fl (11/2) = 11/2" "fl (21/2) = 21/2"
  by (simp_all add: fl_binade [where e = 0] fl_binade [where e = 1] fl_binade [where e = 2]
      fl_binade [where e = 3] fl_binade [where e = "-1"] round_even_def)

lemma float_sub_small:
  "float_sub 0 (- 10) = Finite 10" "float_sub 1 (- 10) = Finite 11"
  "float_sub 2 0 = Finite 2" "float_sub 3 0 = Finite 3"
  "float_sub (1/2) (- 10) = Finite (21/2)" "float_sub 3 (1/2) = Finite (5/2)"
  "float_sub 6 (1/2) = Finite (11/2)"
  by (simp_all add: float_sub_def to_float_def fl_small)

lemma float_div_small:
  "float_div 0 1000 = 0" "float_div 1000 1000 = 1" "float_div 2000 1000 = 2"
  "float_div 5000 1000 = 5" "float_div 7000 1000 = 7"
  by (simp_all add: float_div_def fl_small fl_zero)

section \<open>Bookkeeping of the base engine\<close>

lemma counter_get_upd: "counter_get (m(k \<mapsto> v)) k' = (if k' = k then v else counter_get m k')"
  by (simp add: counter_get_def)

lemma stats_add_sel:
  "cfg (stats_add k n s) = cfg s"
  "frame_buffer (stats_add k n s) = frame_buffer s"
  "gate (stats_add k n s) = gate s"
  "counter_get (stats (stats_add k n s)) k' = (if k' = k then counter_get (stats s) k + n else counter_get (stats s) k')"
  by (simp_all add: stats_add_def counter_get_upd)

lemma buffer_frame_sel:
  "prev_time (buffer_frame C t i img R) = prev_time R"
  "raised (buffer_frame C t i img R) = raised R"
  "submitted (buffer_frame C t i img R) = submitted R @ [(t, i)]"
  "cfg (self (buffer_frame C t i img R)) = cfg (self R)"
  by (simp_all add: buffer_frame_def Let_def stats_add_sel split: prod.splits option.splits)

lemma buffer_frame_counts:
  "counter_get (stats (self (buffer_frame C t i img R))) ''total'' = counter_get (stats (self R)) ''total''"
  "counter_get (stats (self (buffer_frame C t i img R))) ''decoded'' = counter_get (stats (self R)) ''decoded'' + 1"
  by (simp_all add: buffer_frame_def Let_def stats_add_sel split: prod.splits option.splits)

lemma buffer_frame_produced:
  "counter_get (stats (self (buffer_frame C t i img R))) ''produced''
     \<le> counter_get (stats (self R)) ''produced'' + 1"
  "counter_get (stats (self R)) ''produced''
     \<le> counter_get (stats (self (buffer_frame C t i img R))) ''produced''"
  by (simp_all add: buffer_frame_def Let_def stats_add_sel split: prod.splits option.splits)

lemma buffer_frame_accounted:
  assumes "gate_accounted R"
  shows "gate_accounted (buffer_frame (observed C) t i img R)"
proof -
  obtain b0 given where bs: "frame_buffer (self R) = (b0, given)"
    by (cases "frame_buffer (self R)")
  obtain b1 res where ba:
    "buffer_add C b0 img [(''frame_time'', PyFloat t), (''frame_indx'', PyInt (int i))] = (b1, res)"
    by (cases "buffer_add C b0 img [(''frame_time'', PyFloat t), (''frame_indx'', PyInt (int i))]")
  obtain g0 rets where gs: "gate (self R) = (g0, rets)" by (cases "gate (self R)")
  show ?thesis
  proof (cases res)
    case None
    then show ?thesis
      using assms by (simp add: gate_accounted_def buffer_frame_def observed_def Let_def
          stats_add_sel bs ba gs)
  next
    case (Some r)
    obtain g1 obj where gc: "gate_call C g0 r = (g1, obj)" by (cases "gate_call C g0 r")
    show ?thesis
      using assms by (simp add: gate_accounted_def buffer_frame_def observed_def Let_def
          stats_add_sel bs ba gs gc Some)
  qed
qed

lemma sample_frame_sel:
  "prev_time (sample_frame C R (i, VideoFrame (Some t) img)) =
     (if float_less (float_sub t (prev_time R)) (min_frame_interval_sec (cfg (self R))) then prev_time R else t)"
  "submitted (sample_frame C R (i, VideoFrame (Some t) img)) =
     (if float_less (float_sub t (prev_time R)) (min_frame_interval_sec (cfg (self R))) then submitted R
      else submitted R @ [(t, i)])"
  "counter_get (stats (self (sample_frame C R (i, VideoFrame (Some t) img)))) ''total'' =
     counter_get (stats (self R)) ''total'' + 1"
  "counter_get (stats (self (sample_frame C R (i, VideoFrame (Some t) img)))) ''decoded'' =
     (if float_less (float_sub t (prev_time R)) (min_frame_interval_sec (cfg (self R)))
      then counter_get (stats (self R)) ''decoded''
      else counter_get (stats (self R)) ''decoded'' + 1)"
  by (simp_all add: Let_def stats_add_sel buffer_frame_sel buffer_frame_counts)

lemma sample_frame_keeps:
  "cfg (self (sample_frame C R x)) = cfg (self R)"
  "raised (sample_frame C R x) = raised R"
proof -
  obtain i f where x: "x = (i, f)" by (cases x)
  show "cfg (self (sample_frame C R x)) = cfg (self R)"
    unfolding x by (cases f; cases "time f") (simp_all add: Let_def stats_add_sel buffer_frame_sel)
  show "raised (sample_frame C R x) = raised R"
    unfolding x by (cases f; cases "time f") (simp_all add: Let_def stats_add_sel buffer_frame_sel)
qed

lemma sample_frame_accounted:
  "gate_accounted R \<Longrightarrow> gate_accounted (sample_frame (observed C) R x)"
proof -
  assume a: "gate_accounted R"
  obtain i f where x: "x = (i, f)" by (cases x)
  have b: "gate_accounted (R\<lparr>self := stats_add ''total'' 1 (self R)\<rparr>)"
    using a by (simp add: gate_accounted_def stats_add_sel)
  have c: "\<And>t. gate_accounted (R\<lparr>self := stats_add ''total'' 1 (self R), prev_time := t\<rparr>)"
    using a by (simp add: gate_accounted_def stats_add_sel)
  show ?thesis
    unfolding x using a b c
    by (cases f; cases "time f") (simp_all add: Let_def buffer_frame_accounted)
qed

lemma foldl_sample_frame_accounted:
  "gate_accounted R \<Longrightarrow> gate_accounted (foldl (sample_frame (observed C)) R xs)"
  by (induction xs arbitrary: R) (simp_all add: sample_frame_accounted)

lemma foldl_sample_frame_keeps:
  "cfg (self (foldl (sample_frame C) R xs)) = cfg (self R)"
  "raised (foldl (sample_frame C) R xs) = raised R"
  by (induction xs arbitrary: R) (simp_all add: sample_frame_keeps)


lemma flush_results_sel:
  "prev_time (flush_results C rs R) = prev_time R"
  "raised (flush_results C rs R) = raised R"
  "submitted (flush_results C rs R) = submitted R"
  "cfg (self (flush_results C rs R)) = cfg (self R)"
  "counter_get (stats (self (flush_results C rs R))) ''total'' = counter_get (stats (self R)) ''total''"
  "counter_get (stats (self (flush_results C rs R))) ''decoded'' = counter_get (stats (self R)) ''decoded''"
  by (induction C rs R rule: flush_results.induct;
      simp add: Let_def stats_add_sel split: prod.splits)+

lemma flush_results_produced:
  "counter_get (stats (self (flush_results C rs R))) ''produced'' =
     counter_get (stats (self R)) ''produced'' + int (length (filter (\<lambda>r. r \<noteq> None) rs))"
  by (induction C rs R rule: flush_results.induct)
     (simp_all add: Let_def stats_add_sel split: prod.splits)

lemma flush_results_accounted:
  "gate_accounted R \<Longrightarrow> gate_accounted (flush_results (observed C) rs R)"
proof (induction rs arbitrary: R)
  case Nil
  then show ?case by simp
next
  case (Cons r rs)
  show ?case
  proof (cases r)
    case None
    then show ?thesis using Cons by simp
  next
    case (Some g)
    obtain g0 rets where gs: "gate (self R) = (g0, rets)" by (cases "gate (self R)")
    obtain g1 obj where gc: "gate_call C g0 g = (g1, obj)" by (cases "gate_call C g0 g")
    let ?s = "stats_add ''gated'' (N obj)
                ((stats_add ''produced'' 1 (self R))\<lparr>gate := (g1, rets @ [obj])\<rparr>)"
    let ?R1 = "R\<lparr>self := ?s\<rparr>"
    let ?R2 = "if frames obj \<noteq> [] then ?R1\<lparr>yielded := yielded ?R1 @ [frames obj]\<rparr> else ?R1"
    have "gate_accounted ?R2"
      using Cons.prems gs by (simp add: gate_accounted_def stats_add_sel)
    then have "gate_accounted (flush_results (observed C) rs ?R2)" by (rule Cons.IH)
    moreover have "flush_results (observed C) (r # rs) R = flush_results (observed C) rs ?R2"
      by (simp add: Some observed_def Let_def gs gc stats_add_sel)
    ultimately show ?thesis by simp
  qed
qed

lemma flush_buffer_sel:
  "prev_time (flush_buffer C R) = prev_time R"
  "raised (flush_buffer C R) = raised R"
  "submitted (flush_buffer C R) = submitted R"
  "cfg (self (flush_buffer C R)) = cfg (self R)"
  "counter_get (stats (self (flush_buffer C R))) ''total'' = counter_get (stats (self R)) ''total''"
  "counter_get (stats (self (flush_buffer C R))) ''decoded'' = counter_get (stats (self R)) ''decoded''"
  by (simp_all add: flush_buffer_def Let_def stats_add_sel flush_results_sel split: prod.splits)

lemma flush_buffer_produced:
  "counter_get (stats (self (flush_buffer C R))) ''produced'' =
     counter_get (stats (self R)) ''produced''
       + int (length (filter (\<lambda>r. r \<noteq> None) (snd (buffer_final_flush C (frame_buffer (self R))))))"
  by (simp add: flush_buffer_def Let_def stats_add_sel flush_results_produced split: prod.splits)

lemma flush_buffer_yielded:
  assumes "gate_accounted R"
  shows "counter_get (stats (self (flush_buffer (observed C) R))) ''gated'' =
           sum_list (map N (snd (gate (self (flush_buffer (observed C) R)))))"
    and "yielded (flush_buffer (observed C) R) =
           filter (\<lambda>b. b \<noteq> []) (map frames (snd (gate (self (flush_buffer (observed C) R)))))
             @ [PROCESSING_DONE_ITERABLE]"
    and "counter_get (stats (self (flush_buffer (observed C) R))) ''produced'' + 1 =
           int (length (snd (gate (self (flush_buffer (observed C) R)))))"
proof -
  obtain b rs where f: "buffer_final_flush (observed C) (frame_buffer (self R)) = (b, rs)"
    by (cases "buffer_final_flush (observed C) (frame_buffer (self R))")
  define R1 where "R1 = flush_results (observed C) rs (R\<lparr>self := (self R)\<lparr>frame_buffer := b\<rparr>\<rparr>)"
  have "gate_accounted (R\<lparr>self := (self R)\<lparr>frame_buffer := b\<rparr>\<rparr>)"
    using assms by (simp add: gate_accounted_def)
  then have a1: "gate_accounted R1"
    unfolding R1_def by (rule flush_results_accounted)
  obtain g0 rets where gs: "gate (self R1) = (g0, rets)" by (cases "gate (self R1)")
  obtain g1 obj where gf: "gate_flush C g0 = (g1, obj)" by (cases "gate_flush C g0")
  have gfo: "gate_flush (observed C) (g0, rets) = ((g1, rets @ [obj]), obj)"
    by (simp add: observed_def gf)
  show "counter_get (stats (self (flush_buffer (observed C) R))) ''gated'' =
           sum_list (map N (snd (gate (self (flush_buffer (observed C) R)))))"
    using a1 gs by (simp add: flush_buffer_def f R1_def[symmetric] gfo Let_def gate_accounted_def
        stats_add_sel)
  show "yielded (flush_buffer (observed C) R) =
           filter (\<lambda>b. b \<noteq> []) (map frames (snd (gate (self (flush_buffer (observed C) R)))))
             @ [PROCESSING_DONE_ITERABLE]"
    using a1 gs by (simp add: flush_buffer_def f R1_def[symmetric] gfo Let_def gate_accounted_def
        stats_add_sel)
  show "counter_get (stats (self (flush_buffer (observed C) R))) ''produced'' + 1 =
           int (length (snd (gate (self (flush_buffer (observed C) R)))))"
    using a1 gs by (simp add: flush_buffer_def f R1_def[symmetric] gfo Let_def gate_accounted_def
        stats_add_sel)
qed

lemma start_run_accounted: "gate_accounted (start_run (observed C) (watch s))"
  by (simp add: gate_accounted_def start_run_def watch_def counter_get_def)

lemma decode_loop_accounted: "gate_accounted (decode_loop (observed C) (watch s) v)"
  unfolding decode_loop_def by (rule foldl_sample_frame_accounted [OF start_run_accounted])

lemma sample_gated:
  "counter_get (stats (self (sample (observed C) (watch s) v))) ''gated''
     = sum_list (map N (snd (gate (self (sample (observed C) (watch s) v)))))"
  using decode_loop_accounted [of C s v]
  by (cases "failure v") (simp_all add: sample_def Let_def flush_buffer_yielded gate_accounted_def)

lemma sample_gate_calls:
  assumes "failure v = None"
  shows "counter_get (stats (self (sample (observed C) (watch s) v))) ''produced'' + 1
     = int (length (snd (gate (self (sample (observed C) (watch s) v)))))"
  using decode_loop_accounted [of C s v] assms
  by (simp add: sample_def flush_buffer_yielded)

section \<open>The interval filter\<close>






lemma sample_cfg: "cfg (self (sample C s v)) = cfg s"
  by (cases "failure v")
     (simp_all add: sample_def decode_loop_def flush_buffer_sel foldl_sample_frame_keeps start_run_def)

section \<open>What the observed collaborators record\<close>

lemma observed_sel:
  "buffer_add (observed C) (b, given) img meta =
     (case buffer_add C b img meta of (b', res) \<Rightarrow> ((b', given @ [(img, meta)]), res))"
  "buffer_final_flush (observed C) (b, given) =
     (case buffer_final_flush C b of (b', results) \<Rightarrow> ((b', given), results))"
  "buffer_clear (observed C) (b, given) = (buffer_clear C b, [])"
  "gate_call (observed C) (g, returned) r =
     (case gate_call C g r of (g', obj) \<Rightarrow> ((g', returned @ [obj]), obj))"
  "gate_flush (observed C) (g, returned) =
     (case gate_flush C g of (g', obj) \<Rightarrow> ((g', returned @ [obj]), obj))"
  by (simp_all add: observed_def)

lemma flush_results_observed_step:
  assumes "gate (self R) = (g0, rets)" "gate_call C g0 r = (g1, obj)"
  shows "flush_results (observed C) (Some r # rs) R =
           flush_results (observed C) rs
             (if frames obj \<noteq> []
              then R\<lparr>self := stats_add ''gated'' (N obj)
                        ((stats_add ''produced'' 1 (self R))\<lparr>gate := (g1, rets @ [obj])\<rparr>),
                     yielded := yielded R @ [frames obj]\<rparr>
              else R\<lparr>self := stats_add ''gated'' (N obj)
                        ((stats_add ''produced'' 1 (self R))\<lparr>gate := (g1, rets @ [obj])\<rparr>)\<rparr>)"
  using assms by (simp add: observed_sel Let_def stats_add_sel)

lemma given_buffer_frame:
  "snd (frame_buffer (self (buffer_frame (observed C) t i img R)))
     = snd (frame_buffer (self R)) @ [(img, meta_of t i)]"
proof -
  obtain b0 given where bs: "frame_buffer (self R) = (b0, given)"
    by (cases "frame_buffer (self R)")
  obtain b1 res where ba:
    "buffer_add C b0 img [(''frame_time'', PyFloat t), (''frame_indx'', PyInt (int i))] = (b1, res)"
    by (cases "buffer_add C b0 img [(''frame_time'', PyFloat t), (''frame_indx'', PyInt (int i))]")
  obtain g0 rets where gs: "gate (self R) = (g0, rets)" by (cases "gate (self R)")
  show ?thesis
  proof (cases res)
    case None
    then show ?thesis
      by (simp add: buffer_frame_def observed_def Let_def stats_add_sel bs ba gs meta_of_def)
  next
    case (Some r)
    obtain g1 obj where gc: "gate_call C g0 r = (g1, obj)" by (cases "gate_call C g0 r")
    show ?thesis
      by (simp add: buffer_frame_def observed_def Let_def stats_add_sel bs ba gs gc Some
          meta_of_def)
  qed
qed

lemma given_sample_frame:
  "snd (frame_buffer (self (sample_frame (observed C) R (i, VideoFrame (Some t) img)))) =
     (if float_less (float_sub t (prev_time R)) (min_frame_interval_sec (cfg (self R)))
      then snd (frame_buffer (self R))
      else snd (frame_buffer (self R)) @ [(img, meta_of t i)])"
  by (simp add: Let_def stats_add_sel given_buffer_frame)

lemma given_flush_results:
  "snd (frame_buffer (self (flush_results (observed C) rs R))) = snd (frame_buffer (self R))"
proof (induction rs arbitrary: R)
  case Nil
  then show ?case by simp
next
  case (Cons r rs)
  show ?case
  proof (cases r)
    case None
    then show ?thesis using Cons by simp
  next
    case (Some g)
    obtain g0 rets where gs: "gate (self R) = (g0, rets)" by (cases "gate (self R)")
    obtain g1 obj where gc: "gate_call C g0 g = (g1, obj)" by (cases "gate_call C g0 g")
    show ?thesis
      unfolding Some flush_results_observed_step [OF gs gc]
      by (simp add: Cons.IH stats_add_sel)
  qed
qed

lemma given_flush_buffer:
  "snd (frame_buffer (self (flush_buffer (observed C) R))) = snd (frame_buffer (self R))"
proof -
  obtain b0 given where bs: "frame_buffer (self R) = (b0, given)"
    by (cases "frame_buffer (self R)")
  obtain b1 rs where bf: "buffer_final_flush C b0 = (b1, rs)" by (cases "buffer_final_flush C b0")
  have f: "buffer_final_flush (observed C) (b0, given) = ((b1, given), rs)"
    by (simp add: observed_sel bf)
  define R1 where "R1 = flush_results (observed C) rs (R\<lparr>self := (self R)\<lparr>frame_buffer := (b1, given)\<rparr>\<rparr>)"
  have g1: "snd (frame_buffer (self R1)) = given"
    unfolding R1_def by (simp add: given_flush_results)
  obtain g0 rets where gs: "gate (self R1) = (g0, rets)" by (cases "gate (self R1)")
  obtain g1 obj where gf: "gate_flush C g0 = (g1, obj)" by (cases "gate_flush C g0")
  have gfo: "gate_flush (observed C) (g0, rets) = ((g1, rets @ [obj]), obj)"
    by (simp add: observed_sel gf)
  show ?thesis
    using g1 by (simp add: flush_buffer_def bs f R1_def[symmetric] gs gfo Let_def stats_add_sel)
qed

lemma given_start_run: "snd (frame_buffer (self (start_run (observed C) (watch s)))) = []"
  by (simp add: start_run_def watch_def observed_def)

lemma given_sample:
  "snd (frame_buffer (self (sample (observed C) (watch s) v)))
     = snd (frame_buffer (self (decode_loop (observed C) (watch s) v)))"
  by (cases "failure v") (simp_all add: sample_def given_flush_buffer)



section \<open>Observing does not change the run\<close>

lemma unobserved_stats_add: "unobserved (R\<lparr>self := stats_add k n (self R)\<rparr>)
    = (unobserved R)\<lparr>self := stats_add k n (self (unobserved R))\<rparr>"
  by (simp add: unobserved_def stats_add_def)

lemma unobserved_buffer_frame:
  "unobserved (buffer_frame (observed C) t i img R) = buffer_frame C t i img (unobserved R)"
proof -
  obtain b0 given where bs: "frame_buffer (self R) = (b0, given)"
    by (cases "frame_buffer (self R)")
  obtain b1 res where ba:
    "buffer_add C b0 img [(''frame_time'', PyFloat t), (''frame_indx'', PyInt (int i))] = (b1, res)"
    by (cases "buffer_add C b0 img [(''frame_time'', PyFloat t), (''frame_indx'', PyInt (int i))]")
  obtain g0 rets where gs: "gate (self R) = (g0, rets)" by (cases "gate (self R)")
  show ?thesis
  proof (cases res)
    case None
    then show ?thesis
      by (simp add: buffer_frame_def observed_def unobserved_def Let_def stats_add_def bs ba gs)
  next
    case (Some r)
    obtain g1 obj where gc: "gate_call C g0 r = (g1, obj)" by (cases "gate_call C g0 r")
    show ?thesis
      by (simp add: buffer_frame_def observed_def unobserved_def Let_def stats_add_def bs ba gs
          gc Some)
  qed
qed

lemma unobserved_sample_frame:
  "unobserved (sample_frame (observed C) R x) = sample_frame C (unobserved R) x"
proof -
  obtain i f where x: "x = (i, f)" by (cases x)
  show ?thesis
  proof (cases f)
    case NoFrame
    then show ?thesis using x by simp
  next
    case (VideoFrame tm img)
    show ?thesis
    proof (cases tm)
      case None
      then show ?thesis using x VideoFrame by simp
    next
      case (Some t)
      have p: "prev_time (unobserved R) = prev_time R" "cfg (self (unobserved R)) = cfg (self R)"
        by (simp_all add: unobserved_def)
      have u: "unobserved (R\<lparr>self := stats_add ''total'' 1 (self R), prev_time := t\<rparr>)
          = (unobserved R)\<lparr>self := stats_add ''total'' 1 (self (unobserved R)), prev_time := t\<rparr>"
        by (simp add: unobserved_def stats_add_def)
      show ?thesis
        unfolding x VideoFrame Some
        by (simp add: Let_def p stats_add_sel unobserved_buffer_frame unobserved_stats_add u)
    qed
  qed
qed

lemma unobserved_flush_results:
  "unobserved (flush_results (observed C) rs R) = flush_results C rs (unobserved R)"
proof (induction rs arbitrary: R)
  case Nil
  then show ?case by simp
next
  case (Cons r rs)
  show ?case
  proof (cases r)
    case None
    then show ?thesis using Cons by simp
  next
    case (Some g)
    obtain g0 rets where gs: "gate (self R) = (g0, rets)" by (cases "gate (self R)")
    obtain g1 obj where gc: "gate_call C g0 g = (g1, obj)" by (cases "gate_call C g0 g")
    have gu: "gate (self (unobserved R)) = g0" by (simp add: unobserved_def gs)
    show ?thesis
      unfolding Some flush_results_observed_step [OF gs gc]
      by (simp add: Cons.IH Let_def stats_add_sel gu gc)
         (simp add: unobserved_def stats_add_def)
  qed
qed

lemma unobserved_flush_buffer:
  "unobserved (flush_buffer (observed C) R) = flush_buffer C (unobserved R)"
proof -
  obtain b0 given where bs: "frame_buffer (self R) = (b0, given)"
    by (cases "frame_buffer (self R)")
  obtain b1 rs where bf: "buffer_final_flush C b0 = (b1, rs)" by (cases "buffer_final_flush C b0")
  have f: "buffer_final_flush (observed C) (b0, given) = ((b1, given), rs)"
    by (simp add: observed_sel bf)
  define R1 where "R1 = flush_results (observed C) rs (R\<lparr>self := (self R)\<lparr>frame_buffer := (b1, given)\<rparr>\<rparr>)"
  have u1: "unobserved R1 = flush_results C rs ((unobserved R)\<lparr>self := (self (unobserved R))\<lparr>frame_buffer := b1\<rparr>\<rparr>)"
    unfolding R1_def unobserved_flush_results by (simp add: unobserved_def)
  obtain g0 rets where gs: "gate (self R1) = (g0, rets)" by (cases "gate (self R1)")
  obtain g1 obj where gf: "gate_flush C g0 = (g1, obj)" by (cases "gate_flush C g0")
  have gfo: "gate_flush (observed C) (g0, rets) = ((g1, rets @ [obj]), obj)"
    by (simp add: observed_sel gf)
  have fu: "buffer_final_flush C (frame_buffer (self (unobserved R))) = (b1, rs)"
    by (simp add: unobserved_def bs bf)
  have gu: "gate (self (unobserved R1)) = g0" by (simp add: unobserved_def gs)
  have "unobserved (flush_buffer (observed C) R) =
      (let s = stats_add ''gated'' (N obj) ((self (unobserved R1))\<lparr>gate := g1\<rparr>);
           R2 = (unobserved R1)\<lparr>self := s\<rparr>;
           R2 = (if frames obj \<noteq> [] then R2\<lparr>yielded := yielded R2 @ [frames obj]\<rparr> else R2)
       in R2\<lparr>yielded := yielded R2 @ [PROCESSING_DONE_ITERABLE]\<rparr>)"
    by (simp add: flush_buffer_def bs f R1_def[symmetric] gs gfo Let_def)
       (simp add: unobserved_def stats_add_def gs)
  also have "\<dots> = flush_buffer C (unobserved R)"
    by (simp add: flush_buffer_def fu u1[symmetric] gu gf Let_def)
  finally show ?thesis .
qed

lemma unobserved_start_run: "unobserved (start_run (observed C) (watch s)) = start_run C s"
  by (cases s) (simp add: unobserved_def start_run_def watch_def observed_def)

lemma unobserved_raised: "unobserved (R\<lparr>raised := x\<rparr>) = (unobserved R)\<lparr>raised := x\<rparr>"
  by (simp add: unobserved_def)

lemma unobserved_sample: "unobserved (sample (observed C) (watch s) v) = sample C s v"
proof -
  have "unobserved (foldl (sample_frame (observed C)) R xs)
      = foldl (sample_frame C) (unobserved R) xs" for R xs
    by (induction xs arbitrary: R) (simp_all add: unobserved_sample_frame)
  then have d: "unobserved (decode_loop (observed C) (watch s) v) = decode_loop C s v"
    by (simp add: decode_loop_def unobserved_start_run)
  show ?thesis
  proof (cases "failure v")
    case None
    then show ?thesis by (simp add: sample_def unobserved_flush_buffer d)
  next
    case (Some e)
    then show ?thesis by (simp add: sample_def d unobserved_raised)
  qed
qed

lemma observed_stats: "stats (self (sample (observed C) (watch s) v)) = stats (self (sample C s v))"
proof -
  have "stats (self (unobserved R)) = stats (self R)" for R
    by (simp add: unobserved_def)
  then show ?thesis by (metis unobserved_sample)
qed

section \<open>Claims on the interval filter\<close>

lemma fl_literals:
  "fl (1/10) = 3602879701896397 / 36028797018963968"
  "fl (1/5) = 3602879701896397 / 18014398509481984"
  "fl (3/10) = 5404319552844595 / 18014398509481984"
  "fl (11/10) = 2476979795053773 / 2251799813685248"
  "fl (6/5) = 5404319552844595 / 4503599627370496"
  "fl (21/10) = 4728779608739021 / 2251799813685248"
  by (simp_all add: fl_binade [where e = "-4"] fl_binade [where e = "-3"]
      fl_binade [where e = "-2"] fl_binade [where e = 0] fl_binade [where e = 1] round_even_def)

lemma float_sub_literals:
  "float_sub (fl (3/10)) 0 = Finite (5404319552844595 / 18014398509481984)"
  "float_sub (fl (11/10)) 0 = Finite (2476979795053773 / 2251799813685248)"
  "float_sub (fl (6/5)) (fl (11/10)) = Finite (450359962737049 / 4503599627370496)"
  "float_sub (5/2) (fl (11/10)) = Finite (3152519739159347 / 2251799813685248)"
  "float_sub (fl (6/5)) (fl (1/5)) = Finite 1"
  "float_sub (fl (3/10)) (fl (1/5)) = Finite (900719925474099 / 9007199254740992)"
  "float_sub (fl (1/5)) (- 10) = Finite (2871044762448691 / 281474976710656)"
  "float_sub (fl (21/10)) (- 10) = Finite (6811694436397875 / 562949953421312)"
  by (simp_all add: float_sub_def to_float_def fl_literals fl_binade [where e = "-4"]
      fl_binade [where e = "-2"] fl_binade [where e = "-1"] fl_binade [where e = 0]
      fl_binade [where e = 3] round_even_def)

lemma float_div_2100: "float_div 2100 1000 = fl (21/10)"
  by (simp add: float_div_def)


lemma counter_get_empty: "counter_get Map.empty k = 0"
  by (simp add: counter_get_def)

lemma sample_sel:
  "submitted (sample C s v) = submitted (decode_loop C s v)"
  "counter_get (stats (self (sample C s v))) ''total'' = counter_get (stats (self (decode_loop C s v))) ''total''"
  "counter_get (stats (self (sample C s v))) ''decoded'' = counter_get (stats (self (decode_loop C s v))) ''decoded''"
  by (cases "failure v"; simp add: sample_def flush_buffer_sel)+

lemma start_run_sel:
  "prev_time (start_run C s) = - 10"
  "submitted (start_run C s) = []"
  "cfg (self (start_run C s)) = cfg s"
  "counter_get (stats (self (start_run C s))) k = 0"
  "raised (start_run C s) = None"
  by (simp_all add: start_run_def counter_get_empty)

lemma watch_cfg: "cfg (watch s) = cfg s"
  by (simp add: watch_def)


text \<open>
  Claim C6. With \<open>min_frame_interval_sec = 1.0\<close> and decoded frames at the floats 0.0, 0.3,
  1.1, 1.2 and 2.5, the base engine hands to the buffer exactly the frames at 0.0, 1.1 and
  2.5 (decode positions 0, 2 and 4): these are the frames that pass the filter, and an
  observed buffer was given their images with the metadata of their time and position, and
  nothing else. The run ends with \<open>total = 5\<close> and \<open>decoded = 3\<close>. This holds whatever the
  buffer, the gate and the prior state of the instance.
\<close>

theorem example_interval_one:
  "submitted (sample C (s\<lparr>cfg := (cfg s)\<lparr>min_frame_interval_sec := 1\<rparr>\<rparr>)
      \<lparr>decode = [VideoFrame (Some 0) a, VideoFrame (Some (fl (3/10))) b,
                 VideoFrame (Some (fl (11/10))) c, VideoFrame (Some (fl (6/5))) d,
                 VideoFrame (Some (5/2)) e],
       failure = None\<rparr>)
     = [(0, 0), (fl (11/10), 2), (5/2, 4)] \<and>
   counter_get (stats (self (sample C (s\<lparr>cfg := (cfg s)\<lparr>min_frame_interval_sec := 1\<rparr>\<rparr>)
      \<lparr>decode = [VideoFrame (Some 0) a, VideoFrame (Some (fl (3/10))) b,
                 VideoFrame (Some (fl (11/10))) c, VideoFrame (Some (fl (6/5))) d,
                 VideoFrame (Some (5/2)) e],
       failure = None\<rparr>))) ''total'' = 5 \<and>
   counter_get (stats (self (sample C (s\<lparr>cfg := (cfg s)\<lparr>min_frame_interval_sec := 1\<rparr>\<rparr>)
      \<lparr>decode = [VideoFrame (Some 0) a, VideoFrame (Some (fl (3/10))) b,
                 VideoFrame (Some (fl (11/10))) c, VideoFrame (Some (fl (6/5))) d,
                 VideoFrame (Some (5/2)) e],
       failure = None\<rparr>))) ''decoded'' = 3 \<and>
   snd (frame_buffer (self (sample (observed C) (watch (s\<lparr>cfg := (cfg s)\<lparr>min_frame_interval_sec := 1\<rparr>\<rparr>))
      \<lparr>decode = [VideoFrame (Some 0) a, VideoFrame (Some (fl (3/10))) b,
                 VideoFrame (Some (fl (11/10))) c, VideoFrame (Some (fl (6/5))) d,
                 VideoFrame (Some (5/2)) e],
       failure = None\<rparr>)))
     = [(a, [(''frame_time'', PyFloat 0), (''frame_indx'', PyInt 0)]),
        (c, [(''frame_time'', PyFloat (fl (11/10))), (''frame_indx'', PyInt 2)]),
        (e, [(''frame_time'', PyFloat (5/2)), (''frame_indx'', PyInt 4)])]"
  by (simp add: sample_sel given_sample decode_loop_def sample_frame_sel sample_frame_keeps
      given_sample_frame given_start_run start_run_sel watch_cfg float_sub_small
      float_sub_literals meta_of_def
      del: sample_frame.simps)

text \<open>
  Claim C2. The first frame with a readable timestamp is compared with the sentinel
  \<open>prev_time = -10\<close>, so it passes the interval filter only when its time plus 10 reaches
  \<open>min_frame_interval_sec\<close>. With an interval of 20 seconds, the first frame, at time 0,
  is counted in \<open>total\<close> and dropped: nothing is handed to the buffer and \<open>decoded\<close>
  stays 0.
\<close>

theorem first_frame_skipped_interval_twenty:
  "submitted (sample C (s\<lparr>cfg := (cfg s)\<lparr>min_frame_interval_sec := 20\<rparr>\<rparr>)
      \<lparr>decode = [VideoFrame (Some 0) a], failure = None\<rparr>) = [] \<and>
   counter_get (stats (self (sample C (s\<lparr>cfg := (cfg s)\<lparr>min_frame_interval_sec := 20\<rparr>\<rparr>)
      \<lparr>decode = [VideoFrame (Some 0) a], failure = None\<rparr>))) ''total'' = 1 \<and>
   counter_get (stats (self (sample C (s\<lparr>cfg := (cfg s)\<lparr>min_frame_interval_sec := 20\<rparr>\<rparr>)
      \<lparr>decode = [VideoFrame (Some 0) a], failure = None\<rparr>))) ''decoded'' = 0"
  by (simp add: sample_sel decode_loop_def sample_frame_sel sample_frame_keeps start_run_sel
      float_sub_small
      del: sample_frame.simps)



section \<open>Claims on the statistics\<close>

lemma sample_frame_ordered: "counts_ordered R \<Longrightarrow> counts_ordered (sample_frame C R x)"
proof -
  assume a: "counts_ordered R"
  obtain i f where x: "x = (i, f)" by (cases x)
  show ?thesis
  proof (cases f)
    case NoFrame
    then show ?thesis using a x by simp
  next
    case (VideoFrame tm img)
    show ?thesis
    proof (cases tm)
      case None
      then show ?thesis using a x VideoFrame by simp
    next
      case (Some t)
      let ?R1 = "R\<lparr>self := stats_add ''total'' 1 (self R), prev_time := t\<rparr>"
      have p: "counter_get (stats (self (buffer_frame C t i img ?R1))) ''produced''
                 \<le> counter_get (stats (self ?R1)) ''produced'' + 1"
        by (rule buffer_frame_produced)
      show ?thesis
        using a p unfolding x VideoFrame Some counts_ordered_def
        by (simp add: Let_def stats_add_sel buffer_frame_counts)
    qed
  qed
qed

lemma decode_loop_ordered: "counts_ordered (decode_loop C s v)"
proof -
  have "counts_ordered R \<Longrightarrow> counts_ordered (foldl (sample_frame C) R xs)" for R xs
    by (induction xs arbitrary: R) (simp_all add: sample_frame_ordered)
  moreover have "counts_ordered (start_run C s)"
    by (simp add: counts_ordered_def start_run_sel)
  ultimately show ?thesis unfolding decode_loop_def by blast
qed

text \<open>
  Claim C5, as the code has it. For every completed run of \<^verbatim>\<open>sample\<close>: \<open>decoded \<le> total\<close>;
  \<open>gated\<close> is the sum of the discard counts of all the results that the gate returned,
  as an observed gate lists them, from its invocations in the decode loop and in the
  final flush and from its own flush, and these are one invocation for each group counted
  in \<open>produced\<close> and the flush; \<open>produced \<le> decoded\<close> holds when the decode loop ends; and
  the final flush leaves \<open>decoded\<close> as it is and adds one to \<open>produced\<close> for every
  non-empty result of the buffer's \<^verbatim>\<open>final_flush\<close>.
\<close>

theorem stats_conservation:
  assumes "failure v = None"
  shows "counter_get (stats (self (sample C s v))) ''decoded''
           \<le> counter_get (stats (self (sample C s v))) ''total'' \<and>
         counter_get (stats (self (sample C s v))) ''gated''
           = sum_list (map N (snd (gate (self (sample (observed C) (watch s) v))))) \<and>
         counter_get (stats (self (sample C s v))) ''produced'' + 1
           = int (length (snd (gate (self (sample (observed C) (watch s) v))))) \<and>
         counter_get (stats (self (decode_loop C s v))) ''produced''
           \<le> counter_get (stats (self (decode_loop C s v))) ''decoded'' \<and>
         counter_get (stats (self (sample C s v))) ''decoded''
           = counter_get (stats (self (decode_loop C s v))) ''decoded'' \<and>
         counter_get (stats (self (sample C s v))) ''produced''
           = counter_get (stats (self (decode_loop C s v))) ''produced''
             + int (length (filter (\<lambda>r. r \<noteq> None)
                 (snd (buffer_final_flush C (frame_buffer (self (decode_loop C s v)))))))"
proof -
  have o: "counts_ordered (decode_loop C s v)" by (rule decode_loop_ordered)
  have p: "counter_get (stats (self (sample C s v))) ''produced''
           = counter_get (stats (self (decode_loop C s v))) ''produced''
             + int (length (filter (\<lambda>r. r \<noteq> None)
                 (snd (buffer_final_flush C (frame_buffer (self (decode_loop C s v)))))))"
    using assms by (simp add: sample_def flush_buffer_produced)
  have g: "counter_get (stats (self (sample C s v))) ''gated''
           = sum_list (map N (snd (gate (self (sample (observed C) (watch s) v)))))"
    using sample_gated [of C s v] by (simp add: observed_stats)
  have n: "counter_get (stats (self (sample C s v))) ''produced'' + 1
           = int (length (snd (gate (self (sample (observed C) (watch s) v)))))"
    using sample_gate_calls [OF assms, of C s] by (simp add: observed_stats)
  show ?thesis
    using o p g n unfolding counts_ordered_def by (simp add: sample_sel)
qed

theorem stats_conservation_witness:
  "failure \<lparr>decode = [VideoFrame (Some 0) (1::nat), VideoFrame (Some 2) 2], failure = None\<rparr> = None \<and>
   snd (gate (self (sample (observed odd_rejecting) (watch (engine0 1))
      \<lparr>decode = [VideoFrame (Some 0) (1::nat), VideoFrame (Some 2) 2], failure = None\<rparr>)))
     = [\<lparr>frames = [], N = 1\<rparr>,
        \<lparr>frames = [\<lparr>frame = Some (PilImage 2),
            metadata = [(''frame_time'', PyFloat 2), (''frame_indx'', PyInt 1)]\<rparr>], N = 0\<rparr>,
        \<lparr>frames = [], N = 2\<rparr>] \<and>
   counter_get (stats (self (sample odd_rejecting (engine0 1)
      \<lparr>decode = [VideoFrame (Some 0) (1::nat), VideoFrame (Some 2) 2], failure = None\<rparr>))) ''gated'' = 3 \<and>
   counter_get (stats (self (sample odd_rejecting (engine0 1)
      \<lparr>decode = [VideoFrame (Some 0) (1::nat), VideoFrame (Some 2) 2], failure = None\<rparr>))) ''produced'' = 2 \<and>
   counter_get (stats (self (sample odd_rejecting (engine0 1)
      \<lparr>decode = [VideoFrame (Some 0) (1::nat), VideoFrame (Some 2) 2], failure = None\<rparr>))) ''decoded'' = 2 \<and>
   counter_get (stats (self (sample odd_rejecting (engine0 1)
      \<lparr>decode = [VideoFrame (Some 0) (1::nat), VideoFrame (Some 2) 2], failure = None\<rparr>))) ''total'' = 2"
proof -
  let ?v = "\<lparr>decode = [VideoFrame (Some 0) (1::nat), VideoFrame (Some 2) 2], failure = None\<rparr>"
  have l: "snd (gate (self (sample (observed odd_rejecting) (watch (engine0 1)) ?v)))
     = [\<lparr>frames = [], N = 1\<rparr>,
        \<lparr>frames = [\<lparr>frame = Some (PilImage 2),
            metadata = [(''frame_time'', PyFloat 2), (''frame_indx'', PyInt 1)]\<rparr>], N = 0\<rparr>,
        \<lparr>frames = [], N = 2\<rparr>]"
    by (simp add: sample_def decode_loop_def start_run_def buffer_frame_def flush_buffer_def
        observed_def odd_rejecting_def pass_through_def watch_def engine0_def Let_def
        stats_add_def float_sub_small)
  have d: "counter_get (stats (self (sample odd_rejecting (engine0 1) ?v))) ''decoded'' = 2"
    "counter_get (stats (self (sample odd_rejecting (engine0 1) ?v))) ''total'' = 2"
    by (simp_all add: sample_sel decode_loop_def sample_frame_sel sample_frame_keeps start_run_sel
        engine0_def float_sub_small del: sample_frame.simps)
  have h: "failure ?v = None" by simp
  show ?thesis
    using stats_conservation [OF h, of odd_rejecting "engine0 1"] l d
    by simp
qed

text \<open>
  Claim C5 as stated fails: on a video without frames, a buffer whose final flush yields
  one group makes \<open>produced = 1\<close> while \<open>decoded = 0\<close>.
\<close>

theorem produced_exceeds_decoded:
  "\<not> counter_get (stats (self (sample marker_flush (engine0 1) \<lparr>decode = [], failure = None\<rparr>))) ''produced''
      \<le> counter_get (stats (self (sample marker_flush (engine0 1) \<lparr>decode = [], failure = None\<rparr>))) ''decoded''"
  by (simp add: sample_def decode_loop_def flush_buffer_def start_run_def marker_flush_def
      pass_through_def engine0_def Let_def stats_add_def counter_get_def)

section \<open>Claims on the producer\<close>

lemma flush_buffer_last: "last (yielded (flush_buffer C R)) = PROCESSING_DONE_ITERABLE"
  by (simp add: flush_buffer_def Let_def split: prod.splits)

lemma sample_raised: "raised (sample C s v) = failure v"
  by (cases "failure v")
     (simp_all add: sample_def decode_loop_def flush_buffer_sel foldl_sample_frame_keeps
       start_run_sel)

text \<open>
  The path that \<^verbatim>\<open>write_queue\<close> does handle: after a completed run, and after one of the
  two exceptions it catches, the terminal sentinel is the last batch on the queue and no
  exception leaves the producer.
\<close>

lemma handled_run_ends_with_sentinel:
  assumes "failure v = None \<or> failure v = Some AvIsADirectoryError
             \<or> failure v = Some AvInvalidDataError"
  shows "snd (write_queue C s v q) = None"
    and "last (fst (write_queue C s v q)) = PROCESSING_DONE_ITERABLE"
proof -
  have y: "failure v = None \<Longrightarrow> last (yielded (sample C s v)) = PROCESSING_DONE_ITERABLE
      \<and> yielded (sample C s v) \<noteq> []"
    by (simp add: sample_def flush_buffer_last) (simp add: flush_buffer_def Let_def split: prod.splits)
  show "snd (write_queue C s v q) = None"
    using assms by (auto simp add: write_queue_def put_batches_def sample_raised)
  show "last (fst (write_queue C s v q)) = PROCESSING_DONE_ITERABLE"
    using assms y by (auto simp add: write_queue_def put_batches_def sample_raised)
qed

text \<open>
  Claim C4. When the video cannot be opened and the exception is not one of the two that
  \<^verbatim>\<open>write_queue\<close> catches (a file that does not exist, or a container without a video
  stream), the exception leaves the producer and nothing is pushed onto the queue: no
  terminal sentinel batch. The consumer then polls the empty queue forever.
\<close>

theorem unopenable_video_no_sentinel:
  "write_queue C s \<lparr>decode = [], failure = Some AvFileNotFoundError\<rparr> q
     = (q, Some AvFileNotFoundError) \<and>
   write_queue C s \<lparr>decode = [], failure = Some IndexError\<rparr> q = (q, Some IndexError) \<and>
   queue_reader devnull output_path
     (fst (write_queue C s \<lparr>decode = [], failure = Some AvFileNotFoundError\<rparr> [])) []
     = PollsForever []"
  by (simp add: write_queue_def put_batches_def sample_def decode_loop_def start_run_def)

section \<open>Claims on repeated runs\<close>

lemma start_run_ignores_stats: "start_run C (s\<lparr>stats := m\<rparr>) = start_run C s"
  by (simp add: start_run_def)

lemma sample_ignores_stats: "sample C (s\<lparr>stats := m\<rparr>) v = sample C s v"
  by (simp add: sample_def decode_loop_def start_run_ignores_stats)

lemma start_run_eq:
  assumes "cfg s = cfg s'" "buffer_clear C (frame_buffer s) = buffer_clear C (frame_buffer s')"
    "gate s = gate s'"
  shows "start_run C s = start_run C s'"
proof -
  have "s\<lparr>stats := Map.empty, frame_buffer := buffer_clear C (frame_buffer s)\<rparr>
      = s'\<lparr>stats := Map.empty, frame_buffer := buffer_clear C (frame_buffer s')\<rparr>"
    using assms by (cases s; cases s') simp
  then show ?thesis by (simp add: start_run_def)
qed

lemma sample_frame_filter:
  assumes "filter_view R = filter_view R'"
  shows "filter_view (sample_frame C R x) = filter_view (sample_frame C R' x)"
proof -
  obtain i f where x: "x = (i, f)" by (cases x)
  show ?thesis
  proof (cases f)
    case NoFrame
    then show ?thesis using assms x by simp
  next
    case (VideoFrame tm img)
    show ?thesis
    proof (cases tm)
      case None
      then show ?thesis using assms x VideoFrame by simp
    next
      case (Some t)
      let ?x = "(i, VideoFrame (Some t) img)"
      have c: "cfg (self R) = cfg (self R')" and p: "prev_time R = prev_time R'"
        and u: "submitted R = submitted R'"
        and n: "counter_get (stats (self R)) ''total'' = counter_get (stats (self R')) ''total''"
        and d: "counter_get (stats (self R)) ''decoded'' = counter_get (stats (self R')) ''decoded''"
        using assms by (simp_all add: filter_view_def)
      have "cfg (self (sample_frame C R ?x)) = cfg (self (sample_frame C R' ?x))"
        by (simp only: sample_frame_keeps c)
      moreover have "prev_time (sample_frame C R ?x) = prev_time (sample_frame C R' ?x)"
        by (simp only: sample_frame_sel c p)
      moreover have "submitted (sample_frame C R ?x) = submitted (sample_frame C R' ?x)"
        by (simp only: sample_frame_sel c p u)
      moreover have "counter_get (stats (self (sample_frame C R ?x))) ''total''
          = counter_get (stats (self (sample_frame C R' ?x))) ''total''"
        by (simp only: sample_frame_sel n)
      moreover have "counter_get (stats (self (sample_frame C R ?x))) ''decoded''
          = counter_get (stats (self (sample_frame C R' ?x))) ''decoded''"
        by (simp only: sample_frame_sel c p d)
      ultimately have "filter_view (sample_frame C R ?x) = filter_view (sample_frame C R' ?x)"
        by (simp only: filter_view_def)
      then show ?thesis using x VideoFrame Some by simp
    qed
  qed
qed

lemma foldl_sample_frame_filter:
  "filter_view R = filter_view R' \<Longrightarrow>
     filter_view (foldl (sample_frame C) R xs) = filter_view (foldl (sample_frame C) R' xs)"
proof (induction xs arbitrary: R R')
  case Nil
  then show ?case by simp
next
  case (Cons x xs)
  have "filter_view (sample_frame C R x) = filter_view (sample_frame C R' x)"
    using Cons.prems by (rule sample_frame_filter)
  then have "filter_view (foldl (sample_frame C) (sample_frame C R x) xs)
      = filter_view (foldl (sample_frame C) (sample_frame C R' x) xs)"
    by (rule Cons.IH)
  then show ?case by simp
qed

lemma sample_filter_view:
  assumes "cfg s = cfg s'"
  shows "filter_view (sample C s v) = filter_view (sample C s' v)"
proof -
  have "filter_view (start_run C s) = filter_view (start_run C s')"
    using assms by (simp add: filter_view_def start_run_sel)
  then have d: "filter_view (decode_loop C s v) = filter_view (decode_loop C s' v)"
    unfolding decode_loop_def by (rule foldl_sample_frame_filter)
  show ?thesis
    using d by (cases "failure v") (simp_all add: sample_def filter_view_def flush_buffer_sel)
qed


text \<open>
  Claim C8, as the code has it. A second call of \<^verbatim>\<open>sample\<close> on an instance does not
  depend on the counters the first call left (the run is the same whatever \<open>stats\<close> holds
  at its start), and its \<open>total\<close> and \<open>decoded\<close> and the frames it hands to the buffer are
  those of the same run on a freshly constructed engine. Its whole final \<open>stats\<close> are
  those of the fresh engine when clearing the buffer and the first run left the buffer
  and the gate as a fresh engine has them; \<^verbatim>\<open>sample\<close> itself does not reset the gate.
\<close>

theorem second_run_stats:
  "sample C ((self (sample C s0 v1))\<lparr>stats := m\<rparr>) v2 = sample C (self (sample C s0 v1)) v2 \<and>
   counter_get (stats (self (sample C (self (sample C s0 v1)) v2))) ''total''
     = counter_get (stats (self (sample C s0 v2))) ''total'' \<and>
   counter_get (stats (self (sample C (self (sample C s0 v1)) v2))) ''decoded''
     = counter_get (stats (self (sample C s0 v2))) ''decoded'' \<and>
   submitted (sample C (self (sample C s0 v1)) v2) = submitted (sample C s0 v2) \<and>
   (buffer_clear C (frame_buffer (self (sample C s0 v1))) = buffer_clear C (frame_buffer s0) \<and>
    gate (self (sample C s0 v1)) = gate s0 \<longrightarrow>
      stats (self (sample C (self (sample C s0 v1)) v2)) = stats (self (sample C s0 v2)))"
proof -
  let ?s1 = "self (sample C s0 v1)"
  have c: "cfg ?s1 = cfg s0" by (rule sample_cfg)
  have "filter_view (sample C ?s1 v2) = filter_view (sample C s0 v2)"
    using c by (rule sample_filter_view)
  then have f: "counter_get (stats (self (sample C ?s1 v2))) ''total''
       = counter_get (stats (self (sample C s0 v2))) ''total''"
    "counter_get (stats (self (sample C ?s1 v2))) ''decoded''
       = counter_get (stats (self (sample C s0 v2))) ''decoded''"
    "submitted (sample C ?s1 v2) = submitted (sample C s0 v2)"
    by (simp_all add: filter_view_def)
  have e: "sample C ?s1 v2 = sample C s0 v2"
    if "buffer_clear C (frame_buffer ?s1) = buffer_clear C (frame_buffer s0)" "gate ?s1 = gate s0"
  proof -
    have "start_run C ?s1 = start_run C s0"
      using c that by (rule start_run_eq)
    then show ?thesis by (simp add: sample_def decode_loop_def)
  qed
  show ?thesis
    using f e by (simp add: sample_ignores_stats)
qed

theorem second_run_stats_witness:
  "buffer_clear pass_through (frame_buffer (self (sample pass_through (engine0 1)
       \<lparr>decode = [VideoFrame (Some 0) 7, VideoFrame (Some 3) 8], failure = None\<rparr>)))
     = buffer_clear pass_through (frame_buffer (engine0 1)) \<and>
   gate (self (sample pass_through (engine0 1)
       \<lparr>decode = [VideoFrame (Some 0) 7, VideoFrame (Some 3) 8], failure = None\<rparr>))
     = gate (engine0 1) \<and>
   stats (self (sample pass_through (self (sample pass_through (engine0 1)
       \<lparr>decode = [VideoFrame (Some 0) 7, VideoFrame (Some 3) 8], failure = None\<rparr>))
       \<lparr>decode = [VideoFrame (Some 1) 9], failure = None\<rparr>))
     = stats (self (sample pass_through (engine0 1) \<lparr>decode = [VideoFrame (Some 1) 9], failure = None\<rparr>)) \<and>
   counter_get (stats (self (sample pass_through (self (sample pass_through (engine0 1)
       \<lparr>decode = [VideoFrame (Some 0) 7, VideoFrame (Some 3) 8], failure = None\<rparr>))
       \<lparr>decode = [VideoFrame (Some 1) 9], failure = None\<rparr>))) ''total'' = 1"
proof -
  let ?v1 = "\<lparr>decode = [VideoFrame (Some 0) (7::nat), VideoFrame (Some 3) 8], failure = None\<rparr>"
  let ?v2 = "\<lparr>decode = [VideoFrame (Some 1) (9::nat)], failure = None\<rparr>"
  have t: "counter_get (stats (self (sample pass_through (engine0 1) ?v2))) ''total'' = 1"
    by (simp add: sample_sel decode_loop_def sample_frame_sel start_run_sel float_sub_small
        del: sample_frame.simps)
  show ?thesis
    using second_run_stats [of pass_through Map.empty "engine0 1" ?v1 ?v2] t
    by simp
qed

text \<open>
  Claim C8 as stated fails: the gate keeps what it remembered in the first run. Run twice
  on the same one-frame video, the engine counts one discarded frame in the second run
  and none in the run of a fresh engine.
\<close>

theorem second_run_differs_from_fresh:
  "counter_get (stats (self (sample remembering_gate
      (self (sample remembering_gate (engine1 1) \<lparr>decode = [VideoFrame (Some 0) 7], failure = None\<rparr>))
      \<lparr>decode = [VideoFrame (Some 0) 7], failure = None\<rparr>))) ''gated'' = 1 \<and>
   counter_get (stats (self (sample remembering_gate (engine1 1)
      \<lparr>decode = [VideoFrame (Some 0) 7], failure = None\<rparr>))) ''gated'' = 0"
proof -
  let ?v = "\<lparr>decode = [VideoFrame (Some 0) (7::nat)], failure = None\<rparr>"
  have g1: "gate (self (sample remembering_gate (engine1 1) ?v)) = Some 7"
    by (simp add: sample_def decode_loop_def start_run_def buffer_frame_def flush_buffer_def
        remembering_gate_def engine1_def Let_def stats_add_def float_sub_small)
  have c1: "cfg (self (sample remembering_gate (engine1 1) ?v)) = cfg (engine1 1)"
    by (rule sample_cfg)
  have r1: "counter_get (stats (self (sample remembering_gate (engine1 1) ?v))) ''gated'' = 0"
    by (simp add: sample_def decode_loop_def start_run_def buffer_frame_def flush_buffer_def
        remembering_gate_def engine1_def Let_def stats_add_def counter_get_def float_sub_small)
  have r2: "gate s = Some 7 \<Longrightarrow> cfg s = cfg (engine1 1) \<Longrightarrow>
      counter_get (stats (self (sample remembering_gate s ?v))) ''gated'' = 1" for s
    by (simp add: sample_def decode_loop_def start_run_def buffer_frame_def flush_buffer_def
        remembering_gate_def engine1_def Let_def stats_add_def counter_get_def float_sub_small)
  show ?thesis using r1 r2 [OF g1 c1] by simp
qed

section \<open>Claims on the segment-aware engine\<close>


lemma seek_segment_run: "run (seek_segment ftime T gen) = run T"
  by (induction gen arbitrary: T) simp_all




















lemma seek_segment_inside:
  "ftime \<le> segment_boundary_end_sec T \<Longrightarrow> seek_segment ftime T gen = T\<lparr>segment_generator := gen\<rparr>"
  by (cases gen) simp_all

text \<open>
  Claim C1, as the code has it. A frame whose time equals the end boundary of the current
  segment, and lies after its start, is inside: the tracker does not advance (same
  segment, same generator, no stop) and \<open>total\<close> is incremented. A frame whose time
  equals the start boundary of the current segment is not yet in the segment: the test
  is \<^verbatim>\<open>ftime <= segment_boundary_start_sec\<close>, and the frame is skipped with nothing changed.
\<close>

theorem segment_boundary_frames:
  "(ftime = segment_boundary_end_sec T \<and> segment_boundary_start_sec T < ftime
      \<and> \<not> absolute_stop T \<longrightarrow>
      pulled (segment_frame C T (i, VideoFrame (Some ftime) img)) = pulled T \<and>
      segment_generator (segment_frame C T (i, VideoFrame (Some ftime) img)) = segment_generator T \<and>
      segment_boundary_end_sec (segment_frame C T (i, VideoFrame (Some ftime) img))
        = segment_boundary_end_sec T \<and>
      segment_boundary_start_sec (segment_frame C T (i, VideoFrame (Some ftime) img))
        = segment_boundary_start_sec T \<and>
      \<not> absolute_stop (segment_frame C T (i, VideoFrame (Some ftime) img)) \<and>
      counter_get (stats (self (run (segment_frame C T (i, VideoFrame (Some ftime) img))))) ''total''
        = counter_get (stats (self (run T))) ''total'' + 1) \<and>
   (ftime = segment_boundary_start_sec T \<and> ftime \<le> segment_boundary_end_sec T \<longrightarrow>
      segment_frame C T (i, VideoFrame (Some ftime) img) = T)"
  by (simp add: seek_segment_inside Let_def stats_add_sel buffer_frame_counts)

theorem segment_boundary_frames_witness:
  "counter_get (stats (self (run (segment_frame pass_through
      \<lparr>run = start_run pass_through (engine0 0), segment_generator = [],
       segment_boundary_end_sec = 2, segment_boundary_start_sec = 1,
       absolute_stop = False, pulled = 1, accepted_in = []\<rparr>
      (0, VideoFrame (Some 2) 7))))) ''total'' = 1 \<and>
   segment_frame pass_through
      \<lparr>run = start_run pass_through (engine0 0), segment_generator = [],
       segment_boundary_end_sec = 2, segment_boundary_start_sec = 1,
       absolute_stop = False, pulled = 1, accepted_in = []\<rparr>
      (0, VideoFrame (Some 1) 7)
     = \<lparr>run = start_run pass_through (engine0 0), segment_generator = [],
       segment_boundary_end_sec = 2, segment_boundary_start_sec = 1,
       absolute_stop = False, pulled = 1, accepted_in = []\<rparr>"
  using segment_boundary_frames [of 2
      "\<lparr>run = start_run pass_through (engine0 0), segment_generator = [],
       segment_boundary_end_sec = 2, segment_boundary_start_sec = 1,
       absolute_stop = False, pulled = 1, accepted_in = []\<rparr>" pass_through 0 7]
    segment_boundary_frames [of 1
      "\<lparr>run = start_run pass_through (engine0 0), segment_generator = [],
       segment_boundary_end_sec = 2, segment_boundary_start_sec = 1,
       absolute_stop = False, pulled = 1, accepted_in = []\<rparr>" pass_through 0 7]
  by (simp add: start_run_sel del: segment_frame.simps)

text \<open>
  Claim C1 as stated fails at the start boundary: with the segment from 1000 ms to 2000 ms
  and no minimum interval, a frame at exactly 1.0 s is skipped; \<open>total\<close> stays 0 and
  nothing is handed to the buffer.
\<close>

theorem start_boundary_frame_skipped:
  "counter_get (stats (self (run (SegmentSampler_sample pass_through (engine0 0)
      [\<lparr>start_time = 1000, end_time = 2000\<rparr>]
      \<lparr>decode = [VideoFrame (Some 1) 7], failure = None\<rparr>)))) ''total'' = 0 \<and>
   submitted (run (SegmentSampler_sample pass_through (engine0 0)
      [\<lparr>start_time = 1000, end_time = 2000\<rparr>]
      \<lparr>decode = [VideoFrame (Some 1) 7], failure = None\<rparr>)) = []"
  by (simp add: SegmentSampler_sample_def Let_def flush_buffer_sel start_run_sel float_div_small)

text \<open>
  Claim C9. On a segment generator that is already exhausted, the unguarded first
  \<^verbatim>\<open>next\<close> of \<^verbatim>\<open>SegmentSampler.sample\<close> raises: no batch is yielded, the terminal sentinel
  neither, and under \<^verbatim>\<open>write_queue\<close> the exception is not caught, so nothing is pushed onto
  the queue.
\<close>

theorem empty_segment_sequence_raises:
  "raised (run (SegmentSampler_sample C s [] v)) = Some RuntimeError \<and>
   yielded (run (SegmentSampler_sample C s [] v)) = [] \<and>
   SegmentSampler_write_queue C s [] v q = (q, Some RuntimeError)"
  by (simp add: SegmentSampler_sample_def SegmentSampler_write_queue_def put_batches_def
      start_run_def)

lemma segment_loop_raised: "raised (run (segment_loop C T xs)) = raised (run T)"
proof -
  have f: "raised (run (segment_frame C T x)) = raised (run T)" for T x
  proof -
    obtain i fr where x: "x = (i, fr)" by (cases x)
    show ?thesis
      unfolding x
      by (cases fr; cases "time fr")
         (simp_all add: Let_def seek_segment_run buffer_frame_sel)
  qed
  show ?thesis
    by (induction xs arbitrary: T) (simp_all add: Let_def f)
qed

lemma exhaustion_in_loop_flushes:
  assumes "segs \<noteq> []" "absolute_stop (SegmentSampler_sample C s segs v) \<or> failure v = None"
  shows "raised (run (SegmentSampler_sample C s segs v)) = None \<and>
         last (yielded (run (SegmentSampler_sample C s segs v))) = PROCESSING_DONE_ITERABLE"
proof -
  obtain seg gen where segs: "segs = seg # gen" using assms(1) by (cases segs) auto
  have y: "last (yielded (flush_buffer C R)) = PROCESSING_DONE_ITERABLE" for R
    by (simp add: flush_buffer_def Let_def split: prod.splits)
  show ?thesis
    using assms(2)
    by (auto simp add: SegmentSampler_sample_def segs Let_def flush_buffer_sel
        segment_loop_raised start_run_sel y split: if_splits)
qed

section \<open>Claims on the consumer\<close>

lemma saved_files_simps:
  "saved_files dn out [] = []"
  "saved_files dn out (fo # fos) =
     (case jpg_of dn out fo of None \<Rightarrow> saved_files dn out fos | Some j \<Rightarrow> j # saved_files dn out fos)"
  by (simp_all add: saved_files_def List.map_filter_simps split: option.splits)

lemma named_Cons: "named dn (fo # fos) \<longleftrightarrow> named dn [fo] \<and> named dn fos"
  by (auto simp add: named_def)

lemma read_batch_step:
  assumes "\<not> terminal fo" "named dn [fo]"
  shows "read_batch dn out (fo # rest) saved =
           read_batch dn out rest (saved @ saved_files dn out [fo])"
proof (cases "frame fo")
  case None
  then show ?thesis using assms by (simp add: terminal_def saved_files_simps jpg_of_def)
next
  case (Some p)
  show ?thesis
  proof (cases p)
    case (PilImage img)
    show ?thesis
    proof (cases dn)
      case True
      then show ?thesis
        using assms Some PilImage by (simp add: terminal_def saved_files_simps jpg_of_def)
    next
      case False
      then obtain ft where "map_of (metadata fo) ''frame_time'' = Some ft"
        using assms(2) Some PilImage by (auto simp add: named_def)
      then show ?thesis
        using assms False Some PilImage by (simp add: terminal_def saved_files_simps jpg_of_def)
    qed
  next
    case OtherObject
    then show ?thesis
      using assms Some by (simp add: terminal_def saved_files_simps jpg_of_def)
  qed
qed

lemma saved_files_Cons: "saved_files dn out (fo # fos) = saved_files dn out [fo] @ saved_files dn out fos"
  by (simp add: saved_files_simps split: option.splits)

lemma saved_files_append:
  "saved_files dn out (xs @ ys) = saved_files dn out xs @ saved_files dn out ys"
  by (simp add: saved_files_def List.map_filter_def)

lemma read_batch_result:
  assumes "named dn (takeWhile (\<lambda>fo. \<not> terminal fo) batch)"
  shows "read_batch dn out batch saved =
           (if \<exists>fo\<in>set batch. terminal fo
            then Return (saved @ saved_files dn out (takeWhile (\<lambda>fo. \<not> terminal fo) batch))
            else Continue (saved @ saved_files dn out batch))"
  using assms
proof (induction batch arbitrary: saved)
  case Nil
  then show ?case by (simp add: saved_files_simps)
next
  case (Cons fo rest)
  show ?case
  proof (cases "terminal fo")
    case True
    then show ?thesis by (simp add: terminal_def saved_files_simps)
  next
    case False
    have n: "named dn [fo]" "named dn (takeWhile (\<lambda>fo. \<not> terminal fo) rest)"
      using Cons.prems False named_Cons [of dn fo "takeWhile (\<lambda>fo. \<not> terminal fo) rest"]
      by simp_all
    have "read_batch dn out (fo # rest) saved =
            read_batch dn out rest (saved @ saved_files dn out [fo])"
      using False n(1) by (rule read_batch_step)
    also have "\<dots> =
           (if \<exists>fo\<in>set rest. terminal fo
            then Return ((saved @ saved_files dn out [fo])
                   @ saved_files dn out (takeWhile (\<lambda>fo. \<not> terminal fo) rest))
            else Continue ((saved @ saved_files dn out [fo]) @ saved_files dn out rest))"
      using n(2) by (rule Cons.IH)
    finally show ?thesis
      using False
      by (simp add: saved_files_Cons [of dn out fo rest]
          saved_files_Cons [of dn out fo "takeWhile (\<lambda>fo. \<not> terminal fo) rest"])
  qed
qed

lemma queue_reader_result:
  assumes "named dn (takeWhile (\<lambda>fo. \<not> terminal fo) (concat q))"
  shows "queue_reader dn out q saved =
           (if \<exists>fo\<in>set (concat q). terminal fo
            then Returned (saved @ saved_files dn out (takeWhile (\<lambda>fo. \<not> terminal fo) (concat q)))
            else PollsForever (saved @ saved_files dn out (concat q)))"
  using assms
proof (induction q arbitrary: saved)
  case Nil
  then show ?case by (simp add: saved_files_simps)
next
  case (Cons batch q)
  show ?case
  proof (cases "\<exists>fo\<in>set batch. terminal fo")
    case True
    then have t: "takeWhile (\<lambda>fo. \<not> terminal fo) (batch @ concat q)
        = takeWhile (\<lambda>fo. \<not> terminal fo) batch"
      by (auto simp add: takeWhile_append1)
    have "named dn (takeWhile (\<lambda>fo. \<not> terminal fo) batch)"
      using Cons.prems t by simp
    moreover have "\<exists>fo\<in>set (concat (batch # q)). terminal fo"
      using True by auto
    ultimately show ?thesis
      using True t by (simp add: read_batch_result del: set_concat)
  next
    case False
    then have t: "takeWhile (\<lambda>fo. \<not> terminal fo) (batch @ concat q)
        = batch @ takeWhile (\<lambda>fo. \<not> terminal fo) (concat q)"
      by (simp add: takeWhile_append2)
    have tb: "takeWhile (\<lambda>fo. \<not> terminal fo) batch = batch"
      using False by (simp add: takeWhile_eq_all_conv)
    have "named dn (batch @ takeWhile (\<lambda>fo. \<not> terminal fo) (concat q))"
      using Cons.prems t by simp
    then have nb': "named dn batch"
      and nq: "named dn (takeWhile (\<lambda>fo. \<not> terminal fo) (concat q))"
      by (auto simp add: named_def)
    have nb: "named dn (takeWhile (\<lambda>fo. \<not> terminal fo) batch)"
      using nb' by (simp only: tb)
    have r: "read_batch dn out batch saved = Continue (saved @ saved_files dn out batch)"
      using False by (simp add: read_batch_result [OF nb])
    have ex: "(\<exists>fo\<in>set (concat (batch # q)). terminal fo) = (\<exists>fo\<in>set (concat q). terminal fo)"
      using False by auto
    show ?thesis
      unfolding ex using t by (simp add: r Cons.IH [OF nq] saved_files_append del: set_concat)
  qed
qed


lemma read_batch_Return_terminal:
  "read_batch dn out batch saved = Return saved' \<Longrightarrow> \<exists>fo\<in>set batch. terminal fo"
proof (induction batch arbitrary: saved)
  case Nil
  then show ?case by simp
next
  case (Cons fo rest)
  show ?case
  proof (cases "terminal fo")
    case True
    then show ?thesis by simp
  next
    case False
    then have "\<exists>s. read_batch dn out rest s = Return saved'"
      using Cons.prems
      by (auto simp add: terminal_def split: option.splits payload.splits if_splits)
    then show ?thesis using Cons.IH by auto
  qed
qed

lemma queue_reader_Returned_terminal:
  "queue_reader dn out q saved = Returned saved' \<Longrightarrow> \<exists>batch\<in>set q. \<exists>fo\<in>set batch. terminal fo"
proof (induction q arbitrary: saved)
  case Nil
  then show ?case by simp
next
  case (Cons batch q)
  show ?case
  proof (cases "read_batch dn out batch saved")
    case (Continue s)
    then have "queue_reader dn out q s = Returned saved'" using Cons.prems by simp
    then show ?thesis using Cons.IH by auto
  next
    case (Return s)
    then have "\<exists>fo\<in>set batch. terminal fo" by (rule read_batch_Return_terminal)
    then show ?thesis by simp
  next
    case (Raise e s)
    then show ?thesis using Cons.prems by simp
  qed
qed

text \<open>
  Claim C10, as the code has it. The consumer returns only if some batch it dequeued holds
  a terminal FrameObject. When the FrameObjects before the first terminal one that are to
  be saved carry a \<^verbatim>\<open>frame_time\<close>: it returns at that terminal FrameObject, whatever follows it in
  its batch and whatever batches come later, having saved exactly one file
  \<^verbatim>\<open><frame_time>.jpg\<close> under the output path for each earlier FrameObject that carries a
  real image, and none in discard mode; and when no terminal FrameObject ever arrives it
  saves these files for all batches and polls forever.
\<close>

theorem queue_reader_until_terminal:
  "(queue_reader devnull output_path q [] = Returned files \<longrightarrow>
      (\<exists>batch\<in>set q. \<exists>fo\<in>set batch. terminal fo)) \<and>
   (named devnull (concat before @ b) \<and> (\<forall>x\<in>set (concat before @ b). \<not> terminal x) \<and> terminal fo \<longrightarrow>
      queue_reader devnull output_path (before @ [b @ fo # rest] @ later) []
        = Returned (saved_files devnull output_path (concat before @ b))) \<and>
   (named devnull (concat q) \<and> (\<forall>x\<in>set (concat q). \<not> terminal x) \<longrightarrow>
      queue_reader devnull output_path q [] = PollsForever (saved_files devnull output_path (concat q)))"
proof (intro conjI impI)
  assume "queue_reader devnull output_path q [] = Returned files"
  then show "\<exists>batch\<in>set q. \<exists>fo\<in>set batch. terminal fo"
    by (rule queue_reader_Returned_terminal)
next
  assume a: "named devnull (concat before @ b) \<and> (\<forall>x\<in>set (concat before @ b). \<not> terminal x)
      \<and> terminal fo"
  let ?q = "before @ [b @ fo # rest] @ later"
  have c: "concat ?q = (concat before @ b) @ fo # (rest @ concat later)" by simp
  have t: "takeWhile (\<lambda>fo. \<not> terminal fo) (concat ?q) = concat before @ b"
    unfolding c using a by (simp add: takeWhile_tail del: append_assoc)
  have e: "\<exists>x\<in>set (concat ?q). terminal x"
    unfolding c using a by auto
  have "named devnull (takeWhile (\<lambda>fo. \<not> terminal fo) (concat ?q))"
    unfolding t using a by simp
  then show "queue_reader devnull output_path ?q []
      = Returned (saved_files devnull output_path (concat before @ b))"
    using e by (simp only: queue_reader_result t if_True append_Nil)
next
  assume a: "named devnull (concat q) \<and> (\<forall>x\<in>set (concat q). \<not> terminal x)"
  then have t: "takeWhile (\<lambda>fo. \<not> terminal fo) (concat q) = concat q"
    by (simp add: takeWhile_eq_all_conv del: set_concat)
  have e: "\<not> (\<exists>x\<in>set (concat q). terminal x)" using a by blast
  have "named devnull (takeWhile (\<lambda>fo. \<not> terminal fo) (concat q))"
    unfolding t using a by simp
  then show "queue_reader devnull output_path q [] = PollsForever (saved_files devnull output_path (concat q))"
    using e by (simp only: queue_reader_result if_False append_Nil)
qed


theorem queue_reader_until_terminal_witness:
  "queue_reader False ''out''
      ([[\<lparr>frame = Some (PilImage (7::nat)), metadata = [(''frame_time'', PyFloat (1/2)), (''frame_indx'', PyInt 0)]\<rparr>]] @ [[\<lparr>frame = Some (PilImage (8::nat)), metadata = [(''frame_time'', PyFloat (3/2)), (''frame_indx'', PyInt 3)]\<rparr>] @ \<lparr>frame = None, metadata = [(''end'', PyBool True)]\<rparr> # [\<lparr>frame = Some (PilImage (7::nat)), metadata = [(''frame_time'', PyFloat (1/2)), (''frame_indx'', PyInt 0)]\<rparr>]] @ [[\<lparr>frame = Some (PilImage (8::nat)), metadata = [(''frame_time'', PyFloat (3/2)), (''frame_indx'', PyInt 3)]\<rparr>]]) []
     = Returned [\<lparr>directory = ''out'', stem = PyFloat (1/2), image = 7\<rparr>,
                 \<lparr>directory = ''out'', stem = PyFloat (3/2), image = 8\<rparr>] \<and>
   terminal \<lparr>frame = (None :: nat payload option), metadata = [(''end'', PyBool True)]\<rparr> \<and>
   queue_reader False ''out'' [[\<lparr>frame = Some (PilImage (7::nat)), metadata = [(''frame_time'', PyFloat (1/2)), (''frame_indx'', PyInt 0)]\<rparr>]] []
     = PollsForever [\<lparr>directory = ''out'', stem = PyFloat (1/2), image = 7\<rparr>]"
proof -
  let ?fo1 = "\<lparr>frame = Some (PilImage (7::nat)), metadata = [(''frame_time'', PyFloat (1/2)), (''frame_indx'', PyInt 0)]\<rparr>"
  let ?fo2 = "\<lparr>frame = Some (PilImage (8::nat)), metadata = [(''frame_time'', PyFloat (3/2)), (''frame_indx'', PyInt 3)]\<rparr>"
  let ?end = "\<lparr>frame = None, metadata = [(''end'', PyBool True)]\<rparr>"
  have n: "named False (concat [[?fo1]] @ [?fo2])" "named False (concat [[?fo1]])"
    by (simp_all add: named_def)
  have t: "\<not> terminal ?fo1" "\<not> terminal ?fo2" "terminal ?end"
    by (simp_all add: terminal_def metadata_end_def)
  have f: "saved_files False ''out'' (concat [[?fo1]] @ [?fo2]) = [\<lparr>directory = ''out'', stem = PyFloat (1/2), image = 7\<rparr>, \<lparr>directory = ''out'', stem = PyFloat (3/2), image = 8\<rparr>]"
    "saved_files False ''out'' (concat [[?fo1]]) = [\<lparr>directory = ''out'', stem = PyFloat (1/2), image = 7\<rparr>]"
    by (simp_all add: saved_files_def List.map_filter_simps jpg_of_def)
  show ?thesis
    using queue_reader_until_terminal [of False "''out''" "[[?fo1]]" "[]" "[[?fo1]]" "[?fo2]" ?end
        "[?fo1]" "[[?fo2]]"] n t f
    by (auto simp del: queue_reader.simps read_batch.simps)
qed

text \<open>
  Claim C10 as stated fails: a FrameObject that carries a real image and no
  \<^verbatim>\<open>frame_time\<close> in its metadata makes the consumer raise \<^verbatim>\<open>KeyError\<close> at line 293. It
  neither returns at the terminal FrameObject that follows in the same batch, nor keeps
  polling.
\<close>

theorem queue_reader_aborts_without_frame_time:
  "queue_reader False ''out''
     [[\<lparr>frame = Some (PilImage (7::nat)), metadata = [(''frame_indx'', PyInt 0)]\<rparr>,
       \<lparr>frame = None, metadata = [(''end'', PyBool True)]\<rparr>]] []
     = Aborted KeyError []"
  by (simp add: metadata_end_def)

end
